theory Spec2Isabelle
  imports Complex_Main
begin

section \<open>Paths\<close>

text \<open>
  A path is the list of its components, as \<open>pathlib.Path.parts\<close> gives them; the last
  component is the file name and the empty list is the directory the process runs in
  (\<open>Path('.')\<close>). An optional path argument is a \<open>path option\<close>: \<open>None\<close> stands for
  every falsy Python value (\<open>None\<close> or the empty string), \<open>Some p\<close> for any other value.
\<close>

type_synonym path = "string list"

definition name_of :: "path \<Rightarrow> string" where
  "name_of p = (if p = [] then [] else last p)"

definition parent :: "path \<Rightarrow> path" where
  "parent p = butlast p"

text \<open>\<open>str.rfind\<close>: the highest index of the character, or \<open>-1\<close>.\<close>

fun rfind :: "char \<Rightarrow> string \<Rightarrow> int" where
  "rfind c [] = - 1"
| "rfind c (x # xs) =
     (let r = rfind c xs in if 0 \<le> r then r + 1 else if x = c then 0 else - 1)"

text \<open>
  \<open>PurePath.suffix\<close> and \<open>PurePath.stem\<close>: the name is cut at its last dot when that dot
  is neither the first nor the last character of the name.
\<close>

definition suffix :: "path \<Rightarrow> string" where
  "suffix p =
     (let n = name_of p; i = rfind (CHR ''.'') n
      in if 0 < i \<and> i < int (length n) - 1 then drop (nat i) n else [])"

definition stem :: "path \<Rightarrow> string" where
  "stem p =
     (let n = name_of p; i = rfind (CHR ''.'') n
      in if 0 < i \<and> i < int (length n) - 1 then take (nat i) n else n)"

text \<open>\<open>p / name\<close> and \<open>p.with_name(name)\<close>.\<close>

definition joinpath :: "path \<Rightarrow> string \<Rightarrow> path" where
  "joinpath p n = p @ [n]"

definition with_name :: "path \<Rightarrow> string \<Rightarrow> path" where
  "with_name p n = joinpath (parent p) n"

text \<open>
  \<open>os.path.splitext(p)[-1].lower()\<close>, which the workbook loader reads the format from:
  the extension starts at the last dot of the name, unless only dots precede it.
\<close>

definition lower_char :: "char \<Rightarrow> char" where
  "lower_char c =
     (let n = (of_char c :: nat) in if 65 \<le> n \<and> n \<le> 90 then char_of (n + 32) else c)"

definition splitext_lower :: "path \<Rightarrow> string" where
  "splitext_lower p =
     (let n = name_of p; i = rfind (CHR ''.'') n
      in if i < 0 \<or> list_all (\<lambda>c. c = CHR ''.'') (take (nat i) n) then []
         else map lower_char (drop (nat i) n))"

section \<open>Datasets, worksheets and file contents\<close>

text \<open>
  The tabular data itself (pandas' \<open>DataFrame\<close>) is outside the repository: a frame is its
  column names and its rows of cells.
\<close>

record frame =
  columns :: "string list"
  rows :: "string list list"

text \<open>
  \<open>AdvancePandas\<close>: a frame with the two attributes named in \<open>_metadata\<close>.
\<close>

record dataset =
  data :: frame
  source_file :: "path option"
  destination_file :: "path option"

text \<open>
  What the code reads and writes of an openpyxl worksheet: its title, its extent, the
  width of each column dimension (keyed by column letter; unset is \<open>None\<close>), the alignment
  of each cell (keyed by row and column number, from 1) and the cell values.
\<close>

datatype alignment = Alignment (horizontal: "string option") (vertical: "string option")

record sheet =
  title :: string
  max_row :: nat
  max_column :: nat
  col_width :: "string \<Rightarrow> rat option"
  cell_alignment :: "nat \<Rightarrow> nat \<Rightarrow> alignment"
  cell_values :: frame

text \<open>
  A file holds delimited text, a workbook (its active sheet), or is empty or partly
  written: \<open>Partial\<close> is what a reader sees of a file while a writer is in the middle of it.
\<close>

datatype content = Empty | Partial | Csv frame | Workbook sheet

datatype node = File content | Dir

type_synonym filesystem = "path \<Rightarrow> node option"

section \<open>Errors\<close>

datatype error =
    NoSavePath                \<comment> \<open>\<open>ValueError("No save file_path provided.")\<close>\<close>
  | UnsupportedExtension      \<comment> \<open>\<open>ValueError("File extension must be one of ...")\<close>\<close>
  | FileNotFoundError
  | FileExistsError
  | NotADirectoryError
  | IsADirectoryError
  | ShutilError               \<comment> \<open>\<open>shutil.Error\<close>: destination path already exists\<close>
  | InvalidFileException      \<comment> \<open>openpyxl: the extension is not a workbook format\<close>
  | BadZipFile                \<comment> \<open>openpyxl: the file is not a workbook\<close>
  | ParserError               \<comment> \<open>pandas: the file is not delimited text\<close>
  | InvalidColumnIndex        \<comment> \<open>\<open>ValueError("Invalid column index ...")\<close>\<close>
  | KeyError
  | FileUnavailable           \<comment> \<open>the mandatory availability wait ran out\<close>

section \<open>The world a save runs in\<close>

datatype handler = Default_int_handler | Ignore_keyboard_interrupt | Other_handler nat

text \<open>
  What a save does, in the order it does it: a call of \<open>signal.signal\<close> with the handler
  it installs, or a write to the file system.
\<close>

datatype event = Signal handler | Write

text \<open>
  A pending job of the \<open>multiprocessing.Process\<close> that an asynchronous save starts:
  the arguments \<open>_save_to_file\<close> will be called with in the worker.
\<close>

record job =
  job_dataset :: dataset
  job_path :: path
  job_retain_format :: bool
  job_auto_open :: bool
  job_create_backup :: bool

text \<open>
  The state the code changes: the file system, every file-system state it passed
  through (\<open>history\<close>, oldest first: each write to the file system appends the state it
  produced), the log of its handler installations and file-system writes (\<open>events\<close>,
  oldest first), the handler of SIGINT, the files handed to \<open>startfile\<close> and the worker
  processes started. The rest is the environment the code only reads: whether
  \<open>os.rename\<close> replaces an existing destination (POSIX) or raises \<open>FileExistsError\<close> on it
  (Windows), for how many polls each path stays unavailable (\<open>None\<close>: for ever), how often
  the availability wait polls, the random names \<open>tempfile\<close> draws, and the user's answers
  to the two dialogs (\<open>asksaveasfilename\<close> gives the empty string, here \<open>None\<close>, when the
  user cancels).
\<close>

record world =
  fs :: filesystem
  history :: "filesystem list"
  events :: "event list"
  sigint :: handler
  opened :: "path list"
  spawned :: "job list"
  rename_replaces :: bool
  busy :: "path \<Rightarrow> nat option"
  wait_attempts :: nat
  tmp_names :: "string list"
  askyesno :: bool
  asksaveasfilename :: "path option"

type_synonym 'a result = "(error + 'a) \<times> world"

definition exists_path :: "world \<Rightarrow> path \<Rightarrow> bool" where
  "exists_path w p = (p = [] \<or> \<not> Option.is_none (fs w p))"

definition is_dir :: "world \<Rightarrow> path \<Rightarrow> bool" where
  "is_dir w p = (p = [] \<or> (case fs w p of Some Dir \<Rightarrow> True | _ \<Rightarrow> False))"

text \<open>Every change of the file system goes through \<open>set_fs\<close>, which records the new state.\<close>

definition set_fs :: "filesystem \<Rightarrow> world \<Rightarrow> world" where
  "set_fs f w = w\<lparr>fs := f, history := history w @ [f], events := events w @ [Write]\<rparr>"

text \<open>\<open>signal.signal(signal.SIGINT, h)\<close>.\<close>

definition signal_signal :: "handler \<Rightarrow> world \<Rightarrow> world" where
  "signal_signal h w = w\<lparr>sigint := h, events := events w @ [Signal h]\<rparr>"

text \<open>
  Writing a file at a path is not atomic: the file is first there partly written, then
  complete.
\<close>

definition write_file :: "path \<Rightarrow> content \<Rightarrow> world \<Rightarrow> world" where
  "write_file p c w =
     (let w1 = set_fs ((fs w)(p \<mapsto> File Partial)) w
      in set_fs ((fs w1)(p \<mapsto> File c)) w1)"

section \<open>Library operations the save calls\<close>

text \<open>
  Modelled from the spec: \<open>wait_for_file_availability\<close> lives in the repository's
  \<open>utilities\<close> module, which is not among the sources. The spec (section 5) makes it a
  polling wait with a bounded number of attempts; the mandatory form fails when the bound
  is reached, the advisory form (\<open>notify_only=True\<close>) reports failure by its result.
\<close>

fun poll_available :: "nat \<Rightarrow> nat option \<Rightarrow> bool" where
  "poll_available 0 b = False"
| "poll_available (Suc n) None = poll_available n None"
| "poll_available (Suc n) (Some 0) = True"
| "poll_available (Suc n) (Some (Suc k)) = poll_available n (Some k)"

definition wait_for_file_availability :: "path \<Rightarrow> bool \<Rightarrow> world \<Rightarrow> bool result" where
  "wait_for_file_availability p notify_only w =
     (if poll_available (wait_attempts w) (busy w p) then (Inr True, w)
      else if notify_only then (Inr False, w)
      else (Inl FileUnavailable, w))"

text \<open>\<open>Path.mkdir(exist_ok=True)\<close>, without \<open>parents=True\<close>.\<close>

definition mkdir_exist_ok :: "path \<Rightarrow> world \<Rightarrow> unit result" where
  "mkdir_exist_ok p w =
     (case fs w p of
        Some Dir \<Rightarrow> (Inr (), w)
      | Some (File c) \<Rightarrow> (Inl FileExistsError, w)
      | None \<Rightarrow>
          if is_dir w (parent p) then (Inr (), set_fs ((fs w)(p \<mapsto> Dir)) w)
          else if exists_path w (parent p) then (Inl NotADirectoryError, w)
          else (Inl FileNotFoundError, w))"

text \<open>
  \<open>NamedTemporaryFile(delete=False, suffix=sfx, dir=d)\<close>: the first drawn name
  \<open>tmp<random><sfx>\<close> that is free in the directory is created empty; when every draw is
  taken, \<open>tempfile\<close> gives up.
\<close>

fun first_free :: "world \<Rightarrow> path \<Rightarrow> string \<Rightarrow> string list \<Rightarrow> (path \<times> string list) option" where
  "first_free w d sfx [] = None"
| "first_free w d sfx (r # rs) =
     (let p = joinpath d (''tmp'' @ r @ sfx)
      in if Option.is_none (fs w p) then Some (p, rs) else first_free w d sfx rs)"

definition NamedTemporaryFile :: "string \<Rightarrow> path \<Rightarrow> world \<Rightarrow> path result" where
  "NamedTemporaryFile sfx d w =
     (if \<not> is_dir w d then (Inl FileNotFoundError, w)
      else case first_free w d sfx (tmp_names w) of
        None \<Rightarrow> (Inl FileExistsError, w)
      | Some (p, rs) \<Rightarrow> (Inr p, set_fs ((fs w)(p \<mapsto> File Empty)) (w\<lparr>tmp_names := rs\<rparr>)))"

text \<open>
  The sheet pandas writes for a frame: one header row and one row per record, the
  header cells centred (pandas' header style), everything else openpyxl's default.
\<close>

definition new_sheet :: "string \<Rightarrow> frame \<Rightarrow> sheet" where
  "new_sheet t f =
     \<lparr>title = t, max_row = Suc (length (rows f)), max_column = max 1 (length (columns f)),
      col_width = (\<lambda>l. Some 13),
      cell_alignment = (\<lambda>r c. if r = 1 then Alignment (Some ''center'') (Some ''top'')
                               else Alignment None None),
      cell_values = f\<rparr>"

definition to_csv :: "dataset \<Rightarrow> path \<Rightarrow> world \<Rightarrow> world" where
  "to_csv ds p w = write_file p (Csv (data ds)) w"

definition to_excel :: "dataset \<Rightarrow> path \<Rightarrow> string \<Rightarrow> world \<Rightarrow> world" where
  "to_excel ds p sheet_name w = write_file p (Workbook (new_sheet sheet_name (data ds))) w"

text \<open>
  \<open>openpyxl.load_workbook\<close> reads the format from the file name before it opens the file
  (\<open>_validate_archive\<close>) and refuses every extension outside \<open>SUPPORTED_FORMATS\<close>.
  The result is the workbook's active sheet.
\<close>

definition SUPPORTED_FORMATS :: "string list" where
  "SUPPORTED_FORMATS = [''.xlsx'', ''.xlsm'', ''.xltx'', ''.xltm'']"

definition load_workbook :: "path \<Rightarrow> world \<Rightarrow> error + sheet" where
  "load_workbook p w =
     (if splitext_lower p \<notin> set SUPPORTED_FORMATS then Inl InvalidFileException
      else case fs w p of
        None \<Rightarrow> Inl FileNotFoundError
      | Some Dir \<Rightarrow> Inl IsADirectoryError
      | Some (File (Workbook s)) \<Rightarrow> Inr s
      | Some (File c) \<Rightarrow> Inl BadZipFile)"

text \<open>
  \<open>shutil.move(src, dst)\<close>: into \<open>dst\<close> when it is a directory; then \<open>os.rename\<close>, and when
  that raises (on Windows: whenever the destination exists) the file is copied over the
  destination and the source is unlinked. The source is always the temporary file of
  the save; a directory there is refused.
\<close>

definition move :: "path \<Rightarrow> path \<Rightarrow> world \<Rightarrow> unit result" where
  "move src dst w =
     (let real_dst = (if is_dir w dst then joinpath dst (name_of src) else dst)
      in if is_dir w dst \<and> exists_path w real_dst then (Inl ShutilError, w)
         else case fs w src of
           None \<Rightarrow> (Inl FileNotFoundError, w)
         | Some Dir \<Rightarrow> (Inl IsADirectoryError, w)
         | Some (File c) \<Rightarrow>
             if rename_replaces w \<or> Option.is_none (fs w real_dst)
             then (Inr (), set_fs ((fs w)(src := None, real_dst \<mapsto> File c)) w)
             else (let w1 = write_file real_dst c w
                   in (Inr (), set_fs ((fs w1)(src := None)) w1)))"

text \<open>\<open>shutil.copy2(src, dst)\<close>.\<close>

definition copy2 :: "path \<Rightarrow> path \<Rightarrow> world \<Rightarrow> unit result" where
  "copy2 src dst w =
     (case fs w src of
        None \<Rightarrow> (Inl FileNotFoundError, w)
      | Some Dir \<Rightarrow> (Inl IsADirectoryError, w)
      | Some (File c) \<Rightarrow>
          (let real_dst = (if is_dir w dst then joinpath dst (name_of src) else dst)
           in if real_dst = src then (Inl ShutilError, w)
              else if is_dir w real_dst then (Inl IsADirectoryError, w)
              else (Inr (), write_file real_dst c w)))"

section \<open>Column letters\<close>

text \<open>
  \<open>openpyxl.utils.get_column_letter\<close>: the loop of \<open>_get_column_letter\<close> appends the
  letters least significant first, and the result is the reversed list.
\<close>

function letters_loop :: "nat \<Rightarrow> string \<Rightarrow> string" where
  "letters_loop col_idx letters =
     (if 0 < col_idx then
        (let q = col_idx div 26; remainder = col_idx mod 26
         in if remainder = 0 then letters_loop (q - 1) (letters @ [char_of (26 + 64 :: nat)])
            else letters_loop q (letters @ [char_of (remainder + 64)]))
      else letters)"
  by pat_completeness auto
termination
  by (relation "measure fst") (auto simp: Let_def)

definition get_column_letter :: "nat \<Rightarrow> error + string" where
  "get_column_letter col_idx =
     (if \<not> (1 \<le> col_idx \<and> col_idx \<le> 18278) then Inl InvalidColumnIndex
      else Inr (rev (letters_loop col_idx [])))"

text \<open>
  The column a letter names, as \<open>worksheet[letter]\<close> resolves it: the letters read as a
  number in bijective base 26.
\<close>

definition column_index_from_string :: "string \<Rightarrow> nat" where
  "column_index_from_string s = foldl (\<lambda>a c. a * 26 + ((of_char c :: nat) - 64)) 0 s"

section \<open>The Format Transplanter\<close>

text \<open>
  A Python \<open>dict\<close> keeps its keys in insertion order; assigning to a key that is there
  replaces its value in place.
\<close>

record column_detail =
  width :: "rat option"
  alignment :: alignment

type_synonym details = "(string \<times> column_detail) list"

fun dict_set :: "('k \<times> 'v) list \<Rightarrow> 'k \<Rightarrow> 'v \<Rightarrow> ('k \<times> 'v) list" where
  "dict_set [] k v = [(k, v)]"
| "dict_set ((k', v') # d) k v = (if k' = k then (k, v) # d else (k', v') # dict_set d k v)"

text \<open>
  The dictionary comprehension of \<open>_transfer_excel_format\<close>, over
  \<open>range(1, sheet.max_column + 1)\<close>.
\<close>

fun column_details_loop :: "sheet \<Rightarrow> nat list \<Rightarrow> details \<Rightarrow> error + details" where
  "column_details_loop s [] d = Inr d"
| "column_details_loop s (col_idx # cs) d =
     (case get_column_letter col_idx of
        Inl e \<Rightarrow> Inl e
      | Inr l \<Rightarrow>
          column_details_loop s cs
            (dict_set d l \<lparr>width = col_width s l, alignment = cell_alignment s 1 col_idx\<rparr>))"

definition column_details :: "sheet \<Rightarrow> error + details" where
  "column_details s = column_details_loop s [1..<max_column s + 1] []"

text \<open>
  \<open>for cell in updated_sheet[letter]: cell.alignment = a\<close>: the cells of the column in the
  rows from 1 to the sheet's \<open>max_row\<close>; reading a cell that is not there creates it, which
  widens the sheet.
\<close>

fun set_alignments :: "nat \<Rightarrow> alignment \<Rightarrow> nat list \<Rightarrow> sheet \<Rightarrow> sheet" where
  "set_alignments j a [] u = u"
| "set_alignments j a (r # rs) u =
     set_alignments j a rs
       (u\<lparr>cell_alignment := (cell_alignment u)(r := (cell_alignment u r)(j := a)),
          max_column := max (max_column u) j\<rparr>)"

text \<open>
  The second loop, over \<open>enumerate(column_details.keys(), start=1)\<close>: the width goes to
  the dimension of \<open>col_letter\<close>, the alignment to the column that
  \<open>get_column_letter(col_idx)\<close> names.
\<close>

fun apply_details :: "details \<Rightarrow> (nat \<times> string) list \<Rightarrow> sheet \<Rightarrow> error + sheet" where
  "apply_details d [] u = Inr u"
| "apply_details d ((col_idx, col_letter) # rest) u =
     (case map_of d col_letter of
        None \<Rightarrow> Inl KeyError
      | Some det \<Rightarrow>
          (case get_column_letter col_idx of
             Inl e \<Rightarrow> Inl e
           | Inr l \<Rightarrow>
               (let u1 = u\<lparr>col_width := (col_width u)(col_letter := width det)\<rparr>
                in apply_details d rest
                     (set_alignments (column_index_from_string l) (alignment det)
                        [1..<max_row u1 + 1] u1))))"

definition enumerate1 :: "'a list \<Rightarrow> (nat \<times> 'a) list" where
  "enumerate1 xs = zip [1..<length xs + 1] xs"

definition transfer_excel_format :: "path \<Rightarrow> path \<Rightarrow> dataset \<Rightarrow> world \<Rightarrow> unit result" where
  "transfer_excel_format source temp_file_path dataframe w =
     (case load_workbook source w of
        Inl e \<Rightarrow> (Inl e, w)
      | Inr sh \<Rightarrow>
          (case column_details sh of
             Inl e \<Rightarrow> (Inl e, w)
           | Inr d \<Rightarrow>
               (let w1 = to_excel dataframe temp_file_path (title sh) w
                in case load_workbook temp_file_path w1 of
                     Inl e \<Rightarrow> (Inl e, w1)
                   | Inr updated_sheet \<Rightarrow>
                       if title updated_sheet \<noteq> title sh then (Inl KeyError, w1)
                       else (case apply_details d (enumerate1 (map fst d)) updated_sheet of
                               Inl e \<Rightarrow> (Inl e, w1)
                             | Inr u \<Rightarrow> (Inr (), write_file temp_file_path (Workbook u) w1)))))"

section \<open>The Atomic Writer\<close>

definition valid_extensions :: "string list" where
  "valid_extensions = [''.csv'', ''.xlsx'']"

definition backup_file_path :: "path \<Rightarrow> path" where
  "backup_file_path p = with_name p (stem p @ '' - Backup'' @ suffix p)"

text \<open>
  Lines 96 to 110 of \<open>_save_to_file\<close>: the temporary directory, the temporary file, the
  serialised dataset and the format retention. The result is the temporary file's path.
\<close>

definition serialise :: "dataset \<Rightarrow> path \<Rightarrow> path \<Rightarrow> world \<Rightarrow> world" where
  "serialise ds file_path temp_file_path w =
     (if suffix file_path = ''.csv'' then to_csv ds temp_file_path w
      else if suffix file_path = ''.xlsx'' then to_excel ds temp_file_path ''Sheet1'' w
      else w)"

definition reference_file :: "dataset \<Rightarrow> path \<Rightarrow> world \<Rightarrow> path option" where
  "reference_file ds file_path w =
     (if exists_path w file_path then Some file_path else source_file ds)"

definition retain :: "dataset \<Rightarrow> path \<Rightarrow> path \<Rightarrow> world \<Rightarrow> unit result" where
  "retain ds file_path temp_file_path w =
     (case reference_file ds file_path w of
        None \<Rightarrow> (Inr (), w)
      | Some r \<Rightarrow>
          if suffix r \<in> set [''.xlsx'', ''.xls'']
          then transfer_excel_format r temp_file_path ds w
          else (Inr (), w))"

definition prepare :: "dataset \<Rightarrow> path \<Rightarrow> bool \<Rightarrow> world \<Rightarrow> path result" where
  "prepare ds file_path retain_format w =
     (let temp_file_dir = joinpath (parent file_path) ''TemporaryFiles''
      in case mkdir_exist_ok temp_file_dir w of
           (Inl e, w1) \<Rightarrow> (Inl e, w1)
         | (Inr u, w1) \<Rightarrow>
             (case NamedTemporaryFile (suffix file_path) temp_file_dir w1 of
                (Inl e, w2) \<Rightarrow> (Inl e, w2)
              | (Inr temp_file_path, w2) \<Rightarrow>
                  (let w3 = serialise ds file_path temp_file_path w2
                   in if retain_format
                      then (case retain ds file_path temp_file_path w3 of
                              (Inl e, w4) \<Rightarrow> (Inl e, w4)
                            | (Inr u', w4) \<Rightarrow> (Inr temp_file_path, w4))
                      else (Inr temp_file_path, w3))))"

text \<open>Lines 116 to 119: the backup.\<close>

definition backup :: "path \<Rightarrow> world \<Rightarrow> unit result" where
  "backup file_path w =
     (let b = backup_file_path file_path
      in if exists_path w b
         then (case wait_for_file_availability b True w of
                 (Inl e, w1) \<Rightarrow> (Inl e, w1)
               | (Inr available, w1) \<Rightarrow>
                   if available then copy2 file_path b w1 else (Inr (), w1))
         else (Inr (), w))"

text \<open>Lines 112 to 122: the wait, the move, the backup and the opening of the result.\<close>

definition install :: "path \<Rightarrow> path \<Rightarrow> bool \<Rightarrow> bool \<Rightarrow> world \<Rightarrow> unit result" where
  "install file_path temp_file_path auto_open create_backup w =
     (case (if exists_path w file_path then wait_for_file_availability file_path False w
            else (Inr True, w)) of
        (Inl e, w1) \<Rightarrow> (Inl e, w1)
      | (Inr a, w1) \<Rightarrow>
          (case move temp_file_path file_path w1 of
             (Inl e, w2) \<Rightarrow> (Inl e, w2)
           | (Inr u, w2) \<Rightarrow>
               (case (if create_backup then backup file_path w2 else (Inr (), w2)) of
                  (Inl e, w3) \<Rightarrow> (Inl e, w3)
                | (Inr u', w3) \<Rightarrow>
                    (Inr (), if auto_open then w3\<lparr>opened := opened w3 @ [file_path]\<rparr> else w3))))"

text \<open>
  \<open>_save_to_file\<close>: the handler is installed and the extension is checked before the
  \<open>try\<close>; the \<open>finally\<close> of the \<open>try\<close> sets the handler to \<open>signal.default_int_handler\<close>.
\<close>

definition save_to_file :: "dataset \<Rightarrow> path \<Rightarrow> bool \<Rightarrow> bool \<Rightarrow> bool \<Rightarrow> world \<Rightarrow> unit result" where
  "save_to_file ds file_path retain_format auto_open create_backup w =
     (let w0 = signal_signal Ignore_keyboard_interrupt w
      in if suffix file_path \<notin> set valid_extensions then (Inl UnsupportedExtension, w0)
         else (let (r, w') =
                     (case prepare ds file_path retain_format w0 of
                        (Inl e, w1) \<Rightarrow> (Inl e, w1)
                      | (Inr temp_file_path, w1) \<Rightarrow>
                          install file_path temp_file_path auto_open create_backup w1)
               in (r, signal_signal Default_int_handler w')))"

section \<open>The Destination Resolver\<close>

text \<open>
  \<open>save\<close>. The two dialogs are the world's answers; an asynchronous save starts a worker
  process and returns.
\<close>

definition save ::
  "dataset \<Rightarrow> path option \<Rightarrow> bool \<Rightarrow> bool \<Rightarrow> bool \<Rightarrow> bool \<Rightarrow> world \<Rightarrow> unit result" where
  "save ds file_path async_mode retain_format auto_open create_backup w =
     (let file_path' =
        (case file_path of
           Some p \<Rightarrow> Some p
         | None \<Rightarrow>
             (case destination_file ds of
                Some d \<Rightarrow> Some d
              | None \<Rightarrow>
                  (case source_file ds of
                     Some s \<Rightarrow> if askyesno w then Some s else asksaveasfilename w
                   | None \<Rightarrow> None)))
      in case file_path' of
           None \<Rightarrow> (Inl NoSavePath, w)
         | Some p \<Rightarrow>
             if async_mode
             then (Inr (),
                   w\<lparr>spawned := spawned w @
                        [\<lparr>job_dataset = ds, job_path = p, job_retain_format = retain_format,
                          job_auto_open = auto_open, job_create_backup = create_backup\<rparr>]\<rparr>)
             else save_to_file ds p retain_format auto_open create_backup w)"

section \<open>Reading a file\<close>

definition read_file :: "path \<Rightarrow> world \<Rightarrow> error + frame" where
  "read_file p w =
     (case fs w p of
        None \<Rightarrow> Inl FileNotFoundError
      | Some Dir \<Rightarrow> Inl IsADirectoryError
      | Some (File c) \<Rightarrow>
          if suffix p = ''.csv''
          then (case c of Csv f \<Rightarrow> Inr f | _ \<Rightarrow> Inl ParserError)
          else (case c of Workbook s \<Rightarrow> Inr (cell_values s) | _ \<Rightarrow> Inl BadZipFile))"

definition AdvancePandas :: "frame \<Rightarrow> path option \<Rightarrow> path option \<Rightarrow> dataset" where
  "AdvancePandas dataframe source destination =
     \<lparr>data = dataframe, source_file = source, destination_file = destination\<rparr>"

definition AdvanceExcelReader :: "path \<Rightarrow> path option \<Rightarrow> bool \<Rightarrow> world \<Rightarrow> error + dataset" where
  "AdvanceExcelReader source destination continue_from_saved w =
     (if \<not> exists_path w source \<and> \<not> continue_from_saved then Inl FileNotFoundError
      else (let source' =
                  (case destination of
                     Some d \<Rightarrow> if continue_from_saved \<and> exists_path w d then d else source
                   | None \<Rightarrow> source)
            in case read_file source' w of
                 Inl e \<Rightarrow> Inl e
               | Inr df \<Rightarrow> Inr (AdvancePandas df (Some source') destination)))"

section \<open>Derived datasets\<close>

text \<open>
  The class gives pandas two hooks: \<open>_constructor\<close>, which builds a derived result by
  calling \<open>AdvancePandas(data)\<close> (both paths default to \<open>None\<close>), and \<open>_metadata\<close>, the
  attribute names that pandas' \<open>__finalize__(other)\<close> copies from \<open>other\<close> to the result
  when \<open>other\<close> is a frame. An operation on one dataset (copy, row filter, column
  assignment) finalises its result against that dataset; \<open>merge\<close> finalises against its
  merge operation, which is not a frame, so nothing is copied.
\<close>

definition metadata_names :: "string list" where
  "metadata_names = [''source_file'', ''destination_file'']"

definition constructor :: "frame \<Rightarrow> dataset" where
  "constructor df = AdvancePandas df None None"

definition copy_attr :: "string \<Rightarrow> dataset \<Rightarrow> dataset \<Rightarrow> dataset" where
  "copy_attr n other self =
     (if n = ''source_file'' then self\<lparr>source_file := source_file other\<rparr>
      else if n = ''destination_file'' then self\<lparr>destination_file := destination_file other\<rparr>
      else self)"

datatype finalize_other = NDFrame dataset | MergeOperation dataset dataset

definition finalize :: "dataset \<Rightarrow> finalize_other \<Rightarrow> dataset" where
  "finalize self other =
     (case other of
        NDFrame other_ds \<Rightarrow> fold (\<lambda>n s. copy_attr n other_ds s) metadata_names self
      | MergeOperation left right \<Rightarrow> self)"

definition derived :: "(frame \<Rightarrow> frame) \<Rightarrow> dataset \<Rightarrow> dataset" where
  "derived f ds = finalize (constructor (f (data ds))) (NDFrame ds)"

definition merge :: "(frame \<Rightarrow> frame \<Rightarrow> frame) \<Rightarrow> dataset \<Rightarrow> dataset \<Rightarrow> dataset" where
  "merge m left right =
     finalize (constructor (m (data left) (data right))) (MergeOperation left right)"

section \<open>Example inputs\<close>

text \<open>
  The spec's scenario: a three-row, two-column table loaded from \<open>data.csv\<close> and changed
  in its last cell, on a Windows machine (the module imports \<open>os.startfile\<close>, which only
  Windows has) where nothing holds a file open.
\<close>

definition old_frame :: frame where
  "old_frame =
     \<lparr>columns = [''a'', ''b''], rows = [[''1'', ''2''], [''3'', ''4''], [''5'', ''6'']]\<rparr>"

definition new_frame :: frame where
  "new_frame =
     \<lparr>columns = [''a'', ''b''], rows = [[''1'', ''2''], [''3'', ''4''], [''5'', ''7'']]\<rparr>"

definition windows :: world where
  "windows =
     \<lparr>fs = Map.empty, history = [], events = [], sigint = Default_int_handler, opened = [],
      spawned = [], rename_replaces = False, busy = (\<lambda>p. Some 0), wait_attempts = 3,
      tmp_names = [''abc''], askyesno = True, asksaveasfilename = None\<rparr>"

definition data_csv :: path where
  "data_csv = [''data.csv'']"

definition loaded :: dataset where
  "loaded = AdvancePandas new_frame (Some data_csv) None"

text \<open>
  The same machine with \<open>data.csv\<close> on disk, with a backup of it beside it, and with
  that backup held open by another program for ever.
\<close>

definition with_data :: world where
  "with_data = windows\<lparr>fs := [data_csv \<mapsto> File (Csv old_frame)]\<rparr>"

definition with_backup :: world where
  "with_backup =
     windows\<lparr>fs := [data_csv \<mapsto> File (Csv old_frame),
                     [''data - Backup.csv''] \<mapsto> File (Csv old_frame)]\<rparr>"

definition backup_locked :: world where
  "backup_locked =
     with_backup\<lparr>busy := (\<lambda>q. if q = [''data - Backup.csv''] then None else Some 0)\<rparr>"

text \<open>
  A dataset that was never loaded from a file, and one whose recorded source, a
  workbook, is no longer on disk.
\<close>

definition unsourced :: dataset where
  "unsourced = AdvancePandas new_frame None None"

definition from_gone :: dataset where
  "from_gone = AdvancePandas new_frame (Some [''gone.xlsx'']) None"

text \<open>
  The sheet the Format Transplanter leaves in the temporary file for a reference sheet:
  the dataset written under the reference's title, with the reference's column details
  applied. A file holds a dataset when its table is the dataset's.
\<close>

definition transplanted :: "dataset \<Rightarrow> sheet \<Rightarrow> error + sheet" where
  "transplanted ds sh =
     (case column_details sh of
        Inl e \<Rightarrow> Inl e
      | Inr d \<Rightarrow> apply_details d (enumerate1 (map fst d)) (new_sheet (title sh) (data ds)))"

definition holds_dataset :: "dataset \<Rightarrow> content \<Rightarrow> bool" where
  "holds_dataset ds c =
     (case c of Csv f \<Rightarrow> f = data ds | Workbook s \<Rightarrow> cell_values s = data ds | _ \<Rightarrow> False)"

text \<open>
  A formatted workbook; a report that was loaded from one and is saved over it, with a
  backup beside it, which another program may hold open for ever; and a dataset loaded
  from a workbook that is saved as delimited text.
\<close>

definition formatted_sheet :: sheet where
  "formatted_sheet =
     \<lparr>title = ''Data'', max_row = 4, max_column = 2,
      col_width = (\<lambda>l. if l = ''A'' then Some 20 else if l = ''B'' then Some (17 / 2) else Some 13),
      cell_alignment = (\<lambda>r c. if r = 1 \<and> c = 1 then Alignment (Some ''left'') None
                               else if r = 1 \<and> c = 2 then Alignment (Some ''right'') (Some ''center'')
                               else Alignment None None),
      cell_values = old_frame\<rparr>"

definition report_xlsx :: path where "report_xlsx = [''report.xlsx'']"

definition with_report :: world where
  "with_report =
     windows\<lparr>fs := [report_xlsx \<mapsto> File (Workbook formatted_sheet),
                     [''report - Backup.xlsx''] \<mapsto> File (Workbook formatted_sheet)]\<rparr>"

definition report :: dataset where
  "report = AdvancePandas new_frame (Some report_xlsx) None"

definition report_locked :: world where
  "report_locked =
     with_report\<lparr>busy := (\<lambda>q. if q = [''report - Backup.xlsx''] then None else Some 0)\<rparr>"

definition with_workbook :: world where
  "with_workbook = windows\<lparr>fs := [[''source.xlsx''] \<mapsto> File (Workbook formatted_sheet)]\<rparr>"

definition from_workbook :: dataset where
  "from_workbook = AdvancePandas new_frame (Some [''source.xlsx'']) None"

section \<open>Frame conditions\<close>

text \<open>
  The environment of a save, which no step of it changes. \<open>touches_only S w w'\<close>: from \<open>w\<close>
  to \<open>w'\<close> the environment, the SIGINT handler and the started workers stayed as they
  were, the history grew at its end and the log grew by one write for each new state, and the final file system as well as
  every state the history gained agree with the file system of \<open>w\<close> outside the paths
  in \<open>S\<close>.
\<close>

definition same_env :: "world \<Rightarrow> world \<Rightarrow> bool" where
  "same_env w w' =
     (rename_replaces w' = rename_replaces w \<and> busy w' = busy w
      \<and> wait_attempts w' = wait_attempts w \<and> askyesno w' = askyesno w
      \<and> asksaveasfilename w' = asksaveasfilename w \<and> sigint w' = sigint w
      \<and> spawned w' = spawned w)"

definition touches_only :: "path set \<Rightarrow> world \<Rightarrow> world \<Rightarrow> bool" where
  "touches_only S w w' =
     (same_env w w'
      \<and> (\<exists>hs. history w' = history w @ hs
                \<and> events w' = events w @ replicate (length hs) Write
                \<and> (\<forall>f \<in> set (fs w' # hs). \<forall>q. q \<notin> S \<longrightarrow> f q = fs w q)))"

text \<open>The paths in or below a directory.\<close>

definition below :: "path \<Rightarrow> path set" where
  "below d = {q. take (length d) q = d}"

definition temp_file_dir :: "path \<Rightarrow> path" where
  "temp_file_dir file_path = joinpath (parent file_path) ''TemporaryFiles''"

text \<open>
  A complete file, and the content the serialisation step of \<open>_save_to_file\<close> writes for
  a dataset and a path with a supported extension.
\<close>

definition complete :: "content \<Rightarrow> bool" where
  "complete c = (case c of Csv f \<Rightarrow> True | Workbook s \<Rightarrow> True | _ \<Rightarrow> False)"

definition serialised :: "dataset \<Rightarrow> path \<Rightarrow> content" where
  "serialised ds file_path =
     (if suffix file_path = ''.csv'' then Csv (data ds)
      else Workbook (new_sheet ''Sheet1'' (data ds)))"

section \<open>Facts about paths\<close>

lemmas path_defs = suffix_def stem_def name_of_def parent_def joinpath_def with_name_def
  backup_file_path_def valid_extensions_def

lemma poll_available_numeral [simp]:
  "poll_available (numeral k) b =
     (case b of
        None \<Rightarrow> poll_available (pred_numeral k) None
      | Some 0 \<Rightarrow> True
      | Some (Suc j) \<Rightarrow> poll_available (pred_numeral k) (Some j))"
  by (simp add: numeral_eq_Suc split: option.splits nat.splits)

lemma poll_available_forever [simp]: "\<not> poll_available n None"
  by (induction n) simp_all

text \<open>Unfolding these runs a save on a concrete world.\<close>

lemmas run_defs = save_to_file_def prepare_def install_def backup_def retain_def serialise_def
  reference_file_def mkdir_exist_ok_def NamedTemporaryFile_def to_csv_def to_excel_def
  move_def copy2_def wait_for_file_availability_def write_file_def set_fs_def
  exists_path_def is_dir_def signal_signal_def Let_def

lemmas example_defs = with_data_def with_backup_def backup_locked_def windows_def data_csv_def
  loaded_def AdvancePandas_def old_frame_def new_frame_def unsourced_def from_gone_def
  formatted_sheet_def report_xlsx_def with_report_def report_def with_workbook_def
  from_workbook_def report_locked_def

lemma backup_path_example: "backup_file_path data_csv = [''data - Backup.csv'']"
  by (simp add: path_defs data_csv_def Let_def)

subsection \<open>Frames of the steps\<close>

lemma same_env_refl [simp]: "same_env w w" by (simp add: same_env_def)
lemma same_env_trans: "same_env w w1 \<Longrightarrow> same_env w1 w2 \<Longrightarrow> same_env w w2"
  by (simp add: same_env_def)

lemma touches_only_refl [simp]: "touches_only S w w"
  by (simp add: touches_only_def)

lemma touches_only_mono: "touches_only S w w' \<Longrightarrow> S \<subseteq> T \<Longrightarrow> touches_only T w w'"
  unfolding touches_only_def by blast

lemma touches_only_trans:
  assumes "touches_only S w w1" "touches_only S w1 w2"
  shows "touches_only S w w2"
proof -
  from assms(1) obtain hs where h1: "same_env w w1" "history w1 = history w @ hs"
    "events w1 = events w @ replicate (length hs) Write"
    "\<forall>f \<in> set (fs w1 # hs). \<forall>q. q \<notin> S \<longrightarrow> f q = fs w q"
    unfolding touches_only_def by blast
  from assms(2) obtain hs' where h2: "same_env w1 w2" "history w2 = history w1 @ hs'"
    "events w2 = events w1 @ replicate (length hs') Write"
    "\<forall>f \<in> set (fs w2 # hs'). \<forall>q. q \<notin> S \<longrightarrow> f q = fs w1 q"
    unfolding touches_only_def by blast
  have "history w2 = history w @ (hs @ hs')" using h1 h2 by simp
  moreover have "events w2 = events w @ replicate (length (hs @ hs')) Write"
    using h1(3) h2(3) by (simp add: replicate_add)
  moreover have "\<forall>f \<in> set (fs w2 # (hs @ hs')). \<forall>q. q \<notin> S \<longrightarrow> f q = fs w q"
    using h1(4) h2(4) by auto
  ultimately show ?thesis
    unfolding touches_only_def using same_env_trans[OF h1(1) h2(1)] by blast
qed

lemma touches_only_set_fs:
  "(\<And>q. q \<notin> S \<Longrightarrow> f q = fs w q) \<Longrightarrow> touches_only S w (set_fs f w)"
  by (simp add: touches_only_def set_fs_def same_env_def)

lemma touches_only_write_file: "p \<in> S \<Longrightarrow> touches_only S w (write_file p c w)"
  by (auto simp add: touches_only_def write_file_def set_fs_def same_env_def Let_def)

lemma touches_only_fs: "touches_only S w w' \<Longrightarrow> q \<notin> S \<Longrightarrow> fs w' q = fs w q"
  by (auto simp add: touches_only_def)

lemma touches_only_env: "touches_only S w w' \<Longrightarrow> same_env w w'"
  by (simp add: touches_only_def)

lemma touches_only_set_fs_tmp:
  "(\<And>q. q \<notin> S \<Longrightarrow> f q = fs w q) \<Longrightarrow> touches_only S w (set_fs f (w\<lparr>tmp_names := b\<rparr>))"
  by (simp add: touches_only_def set_fs_def same_env_def)

lemma wait_world [simp]: "snd (wait_for_file_availability p n w) = w"
  by (simp add: wait_for_file_availability_def)

lemma touches_mkdir: "mkdir_exist_ok d w = (r, w') \<Longrightarrow> touches_only {d} w w'"
  by (auto simp add: mkdir_exist_ok_def intro!: touches_only_set_fs split: option.splits node.splits if_splits)

lemma first_free_in: "first_free w d sfx rs = Some (p, rs') \<Longrightarrow> \<exists>r. p = joinpath d (''tmp'' @ r @ sfx) \<and> fs w p = None"
  by (induction rs) (auto simp add: Let_def Option.is_none_def split: if_splits)

lemma touches_tmp: "NamedTemporaryFile sfx d w = (r, w') \<Longrightarrow> touches_only (below d) w w'"
  apply (auto simp add: NamedTemporaryFile_def split: option.splits if_splits)
  apply (drule first_free_in)
  apply (auto intro!: touches_only_set_fs_tmp simp add: below_def joinpath_def split: if_splits)
  done

lemma below_self [simp]: "d \<in> below d" by (simp add: below_def)
lemma below_join [simp]: "joinpath d n \<in> below d" by (simp add: below_def joinpath_def)

lemma touches_serialise: "touches_only {t} w (serialise ds p t w)"
  by (simp add: serialise_def to_csv_def to_excel_def touches_only_write_file)

lemma touches_transfer: "transfer_excel_format r t ds w = (res, w') \<Longrightarrow> touches_only {t} w w'"
  by (auto simp add: transfer_excel_format_def to_excel_def Let_def touches_only_write_file
      intro: touches_only_trans [OF touches_only_write_file touches_only_write_file]
      split: sum.splits if_splits)

lemma touches_retain: "retain ds p t w = (res, w') \<Longrightarrow> touches_only {t} w w'"
  by (auto simp add: retain_def touches_transfer split: option.splits if_splits)

lemma tmp_path: "NamedTemporaryFile sfx d w = (Inr t, w') \<Longrightarrow>
   (\<exists>r. t = joinpath d (''tmp'' @ r @ sfx)) \<and> fs w' t = Some (File Empty)"
  apply (auto simp add: NamedTemporaryFile_def set_fs_def split: option.splits if_splits)
  apply (drule first_free_in)
  apply auto
  done

lemma prepare_frame:
  "prepare ds p rf w = (res, w') \<Longrightarrow> touches_only (below (temp_file_dir p)) w w'"
proof -
  assume a: "prepare ds p rf w = (res, w')"
  let ?d = "temp_file_dir p"
  obtain r1 w1 where m: "mkdir_exist_ok ?d w = (r1, w1)" by (cases "mkdir_exist_ok ?d w")
  have t1: "touches_only (below ?d) w w1"
    by (rule touches_only_mono [OF touches_mkdir [OF m]]) simp
  show ?thesis
  proof (cases r1)
    case (Inl e)
    with a m t1 show ?thesis by (simp add: prepare_def temp_file_dir_def)
  next
    case (Inr u)
    obtain r2 w2 where n: "NamedTemporaryFile (suffix p) ?d w1 = (r2, w2)"
      by (cases "NamedTemporaryFile (suffix p) ?d w1")
    have t2: "touches_only (below ?d) w w2"
      by (rule touches_only_trans [OF t1 touches_tmp [OF n]])
    show ?thesis
    proof (cases r2)
      case (Inl e)
      with a m n t2 \<open>r1 = Inr u\<close> show ?thesis by (simp add: prepare_def temp_file_dir_def)
    next
      case (Inr t)
      then have tin: "{t} \<subseteq> below ?d" using tmp_path [of "suffix p" ?d w1 t w2] n by auto
      let ?w3 = "serialise ds p t w2"
      have t3: "touches_only (below ?d) w ?w3"
        by (rule touches_only_trans [OF t2 touches_only_mono [OF touches_serialise tin]])
      show ?thesis
      proof (cases rf)
        case False
        with a m n t3 \<open>r1 = Inr u\<close> \<open>r2 = Inr t\<close> show ?thesis
          by (simp add: prepare_def temp_file_dir_def Let_def)
      next
        case True
        obtain r4 w4 where q: "retain ds p t ?w3 = (r4, w4)" by (cases "retain ds p t ?w3")
        have t4: "touches_only (below ?d) w w4"
          by (rule touches_only_trans [OF t3 touches_only_mono [OF touches_retain [OF q] tin]])
        with a m n q True \<open>r1 = Inr u\<close> \<open>r2 = Inr t\<close> show ?thesis
          by (cases r4) (simp_all add: prepare_def temp_file_dir_def Let_def)
      qed
    qed
  qed
qed

subsection \<open>Paths of a save, and the temporary file\<close>

lemma stem_suffix: "stem p @ suffix p = name_of p"
  by (simp add: stem_def suffix_def Let_def)

lemma valid_nonempty: "suffix p \<in> set valid_extensions \<Longrightarrow> p \<noteq> []"
  by (auto simp add: path_defs)

lemma suffix_last: "p \<noteq> [] \<Longrightarrow> suffix p = suffix [last p]"
  by (simp add: suffix_def name_of_def)

lemma dest_not_in_tempdir:
  assumes "suffix p \<in> set valid_extensions"
  shows "p \<notin> below (temp_file_dir p)"
proof
  assume "p \<in> below (temp_file_dir p)"
  have ne: "p \<noteq> []" using assms by (rule valid_nonempty)
  then have "length (temp_file_dir p) = length p"
    by (simp add: temp_file_dir_def joinpath_def parent_def)
  with \<open>p \<in> below (temp_file_dir p)\<close> have "p = butlast p @ [''TemporaryFiles'']"
    by (simp add: below_def temp_file_dir_def joinpath_def parent_def)
  then have "last p = ''TemporaryFiles''" by (metis last_snoc)
  then have "suffix p = []" using suffix_last [OF ne] by (simp add: suffix_def name_of_def)
  with assms show False by (simp add: valid_extensions_def)
qed

lemma backup_not_in_tempdir:
  assumes "suffix p \<in> set valid_extensions"
  shows "backup_file_path p \<notin> below (temp_file_dir p)"
proof
  assume a: "backup_file_path p \<in> below (temp_file_dir p)"
  have "length (temp_file_dir p) = length (backup_file_path p)"
    by (simp add: temp_file_dir_def backup_file_path_def with_name_def joinpath_def)
  with a have "backup_file_path p = temp_file_dir p" by (simp add: below_def)
  then have "stem p @ '' - Backup'' @ suffix p = ''TemporaryFiles''"
    by (simp add: temp_file_dir_def backup_file_path_def with_name_def joinpath_def)
  then have "CHR '' '' \<in> set ''TemporaryFiles''"
    by (metis in_set_conv_decomp append_Cons append_assoc)
  then show False by simp
qed

lemma backup_not_dest:
  assumes "p \<noteq> []"
  shows "backup_file_path p \<noteq> p"
proof
  assume "backup_file_path p = p"
  then have "last (backup_file_path p) = last p" by simp
  then have "stem p @ '' - Backup'' @ suffix p = name_of p" using assms
    by (simp add: backup_file_path_def with_name_def joinpath_def name_of_def)
  then have "length (stem p @ '' - Backup'' @ suffix p) = length (stem p @ suffix p)"
    by (simp only: stem_suffix)
  then show False by simp
qed

lemma fs_write_file [simp]: "fs (write_file p c w) = (fs w)(p \<mapsto> File c)"
  by (simp add: write_file_def set_fs_def Let_def)

lemma fs_set_fs [simp]: "fs (set_fs f w) = f" by (simp add: set_fs_def)

lemma complete_simps [simp]: "complete (Csv f)" "complete (Workbook s)" "\<not> complete Empty" "\<not> complete Partial"
  by (simp_all add: complete_def)

lemma fs_serialise: "suffix p \<in> set valid_extensions \<Longrightarrow>
   fs (serialise ds p t w) = (fs w)(t \<mapsto> File (serialised ds p))"
  by (auto simp add: serialise_def serialised_def to_csv_def to_excel_def valid_extensions_def)

lemma serialised_complete [simp]: "complete (serialised ds p)"
  by (simp add: serialised_def)

lemma transfer_tmp: "transfer_excel_format r t ds w = (Inr u, w') \<Longrightarrow>
   \<exists>s. fs w' t = Some (File (Workbook s))"
  by (auto simp add: transfer_excel_format_def Let_def split: sum.splits if_splits)

lemma retain_tmp: "retain ds p t w = (Inr u, w') \<Longrightarrow> fs w t = Some (File c) \<Longrightarrow> complete c \<Longrightarrow>
   \<exists>c'. fs w' t = Some (File c') \<and> complete c'"
  by (auto simp add: retain_def split: option.splits if_splits dest: transfer_tmp)

lemma prepare_tmp:
  assumes v: "suffix p \<in> set valid_extensions" and a: "prepare ds p rf w = (Inr t, w')"
  shows "t \<in> below (temp_file_dir p) \<and> (\<exists>c. fs w' t = Some (File c) \<and> complete c)
     \<and> (\<not> rf \<longrightarrow> fs w' t = Some (File (serialised ds p)))"
proof -
  let ?d = "temp_file_dir p"
  from a obtain u w1 where m: "mkdir_exist_ok ?d w = (Inr u, w1)"
    by (auto simp add: prepare_def temp_file_dir_def Let_def split: prod.splits sum.splits)
  from a m obtain w2 where n: "NamedTemporaryFile (suffix p) ?d w1 = (Inr t, w2)"
    by (auto simp add: prepare_def temp_file_dir_def Let_def split: prod.splits sum.splits if_splits)
  let ?w3 = "serialise ds p t w2"
  have tin: "t \<in> below ?d" using tmp_path [OF n] by auto
  have f3: "fs ?w3 t = Some (File (serialised ds p))" by (simp add: fs_serialise [OF v])
  show ?thesis
  proof (cases rf)
    case False
    with a m n have "w' = ?w3" by (simp add: prepare_def temp_file_dir_def Let_def)
    with f3 tin False show ?thesis by auto
  next
    case True
    with a m n obtain u' where "retain ds p t ?w3 = (Inr u', w')"
      by (auto simp add: prepare_def temp_file_dir_def Let_def split: prod.splits sum.splits)
    from retain_tmp [OF this f3] tin True show ?thesis by simp
  qed
qed

subsection \<open>Moving the temporary file into place\<close>

lemma touches_move: "move s d w = (r, w') \<Longrightarrow> touches_only ({s} \<union> below d) w w'"
  apply (auto simp add: move_def Let_def split: option.splits node.splits if_splits
      intro!: touches_only_set_fs)
     apply (auto simp add: joinpath_def below_def split: if_splits
      intro!: touches_only_trans [OF touches_only_write_file touches_only_set_fs])
  done

lemma move_file:
  assumes "fs w t = Some (File c)" "\<not> is_dir w p" "t \<noteq> p"
  shows "fst (move t p w) = Inr () \<and> fs (snd (move t p w)) = (fs w)(t := None, p \<mapsto> File c)"
  using assms by (auto simp add: move_def Let_def)

lemma same_env_poll: "same_env w w' \<Longrightarrow>
   poll_available (wait_attempts w') (busy w' q) = poll_available (wait_attempts w) (busy w q)"
  by (simp add: same_env_def)

lemma backup_skipped:
  "\<not> (exists_path w (backup_file_path p) \<and> poll_available (wait_attempts w) (busy w (backup_file_path p)))
    \<Longrightarrow> backup p w = (Inr (), w)"
  by (auto simp add: backup_def Let_def wait_for_file_availability_def)

lemma backup_copied:
  assumes "exists_path w (backup_file_path p)"
    "poll_available (wait_attempts w) (busy w (backup_file_path p))"
    "\<not> is_dir w (backup_file_path p)" "fs w p = Some (File c)" "backup_file_path p \<noteq> p"
  shows "backup p w = (Inr (), write_file (backup_file_path p) c w)"
  using assms by (simp add: backup_def Let_def wait_for_file_availability_def copy2_def)

lemma exists_path_cong: "fs w' q = fs w q \<Longrightarrow> exists_path w' q = exists_path w q"
  by (simp add: exists_path_def)

lemma is_dir_cong: "fs w' q = fs w q \<Longrightarrow> is_dir w' q = is_dir w q"
  by (simp add: is_dir_def)

lemma below_same_length: "length b = length p \<Longrightarrow> b \<in> below p \<longleftrightarrow> b = p"
  by (auto simp add: below_def)

lemma length_backup: "p \<noteq> [] \<Longrightarrow> length (backup_file_path p) = length p"
  by (simp add: backup_file_path_def with_name_def joinpath_def parent_def)

text \<open>With the backup file there but never available, the backup flag changes nothing.\<close>
lemma install_backup_unavailable:
  assumes ne: "p \<noteq> []" and bt: "backup_file_path p \<noteq> t"
    and ex: "exists_path w (backup_file_path p)"
    and na: "\<not> poll_available (wait_attempts w) (busy w (backup_file_path p))"
  shows "install p t ao True w = install p t ao False w"
proof -
  let ?b = "backup_file_path p"
  have "backup p w2 = (Inr (), w2)" if m: "move t p w = (r, w2)" for r w2
  proof -
    have tm: "touches_only ({t} \<union> below p) w w2" by (rule touches_move [OF m])
    have "?b \<notin> {t} \<union> below p"
      using bt backup_not_dest [OF ne] below_same_length [OF length_backup [OF ne]] by simp
    then have "fs w2 ?b = fs w ?b" by (rule touches_only_fs [OF tm])
    moreover have "same_env w w2" by (rule touches_only_env [OF tm])
    ultimately have "\<not> poll_available (wait_attempts w2) (busy w2 ?b)"
      using na by (simp add: same_env_poll)
    then show ?thesis by (simp add: backup_skipped)
  qed
  note skip = this
  let ?x = "if exists_path w p then wait_for_file_availability p False w else (Inr True, w)"
  obtain rx where x: "?x = (rx, w)"
    by (cases ?x) (auto simp add: wait_for_file_availability_def split: if_splits)
  show ?thesis
  proof (cases rx)
    case (Inl e)
    with x show ?thesis by (simp add: install_def)
  next
    case (Inr a)
    obtain r2 w2 where m: "move t p w = (r2, w2)" by (cases "move t p w")
    show ?thesis
    proof (cases r2)
      case (Inl e)
      with x m \<open>rx = Inr a\<close> show ?thesis by (simp add: install_def)
    next
      case (Inr u)
      with x m \<open>rx = Inr a\<close> skip [OF m] show ?thesis by (simp add: install_def)
    qed
  qed
qed

lemma install_success:
  assumes i: "install p t ao cb w = (Inr (), w')"
    and ft: "fs w t = Some (File c)" and nd: "\<not> is_dir w p" and tp: "t \<noteq> p"
    and bp: "backup_file_path p \<noteq> p" and bt: "backup_file_path p \<noteq> t"
    and ne: "p \<noteq> []" and tb: "t \<notin> below (backup_file_path p)"
  shows "fs w' p = Some (File c) \<and> fs w' t = None
     \<and> (cb \<and> exists_path w (backup_file_path p)
          \<and> poll_available (wait_attempts w) (busy w (backup_file_path p))
          \<and> \<not> is_dir w (backup_file_path p) \<longrightarrow> fs w' (backup_file_path p) = Some (File c))
     \<and> (\<not> (cb \<and> exists_path w (backup_file_path p)
          \<and> poll_available (wait_attempts w) (busy w (backup_file_path p)))
          \<longrightarrow> fs w' (backup_file_path p) = fs w (backup_file_path p))"
proof -
  let ?b = "backup_file_path p"
  obtain r2 w2 where m: "move t p w = (r2, w2)" by (cases "move t p w")
  have r2: "r2 = Inr ()" and f2: "fs w2 = (fs w)(t := None, p \<mapsto> File c)"
    using move_file [OF ft nd tp] m by simp_all
  have e2: "same_env w w2" by (rule touches_only_env [OF touches_move [OF m]])
  have b2: "fs w2 ?b = fs w ?b" using f2 bp bt by simp
  have p2: "fs w2 p = Some (File c)" using f2 by simp
  have t2: "fs w2 t = None" using f2 tp by simp
  have pa: "poll_available (wait_attempts w2) (busy w2 ?b) = poll_available (wait_attempts w) (busy w ?b)"
    by (rule same_env_poll [OF e2])
  have ex: "exists_path w2 ?b = exists_path w ?b" by (rule exists_path_cong [OF b2])
  have dr: "is_dir w2 ?b = is_dir w ?b" by (rule is_dir_cong [OF b2])
  let ?x = "if exists_path w p then wait_for_file_availability p False w else (Inr True, w)"
  obtain rx where x: "?x = (rx, w)"
    by (cases ?x) (auto simp add: wait_for_file_availability_def split: if_splits)
  from i x obtain a where rx: "rx = Inr a"
    by (cases rx) (simp_all add: install_def)
  have w': "\<exists>w3. backup p w2 = (Inr (), w3) \<and> fs w' = fs w3" if cb
  proof -
    obtain r3 w3 where b: "backup p w2 = (r3, w3)" by (cases "backup p w2")
    with i x rx m r2 that show ?thesis
      by (cases r3) (auto simp add: install_def split: if_splits)
  qed
  have w'': "fs w' = fs w2" if "\<not> cb"
    using i x rx m r2 that by (auto simp add: install_def split: if_splits)
  show ?thesis
  proof (cases "cb \<and> exists_path w ?b \<and> poll_available (wait_attempts w) (busy w ?b)")
    case False
    then have "fs w' = fs w2" using w' w'' backup_skipped [of w2 p] pa ex by auto
    with p2 t2 b2 False show ?thesis by auto
  next
    case True
    show ?thesis
    proof (cases "is_dir w ?b")
      case False
      have "backup p w2 = (Inr (), write_file ?b c w2)"
        using backup_copied [of w2 p c] True False pa ex dr p2 bp by simp
      with w' True have "fs w' = (fs w2)(?b \<mapsto> File c)" by auto
      with p2 t2 bp bt True show ?thesis by auto
    next
      case d: True
      from w' True obtain w3 where b3: "backup p w2 = (Inr (), w3)" "fs w' = fs w3" by auto
      have "touches_only (below ?b) w2 w3"
        using b3(1) d dr ex pa True p2 bp
        by (auto simp add: backup_def Let_def wait_for_file_availability_def copy2_def
            joinpath_def below_def intro!: touches_only_write_file split: if_splits)
      moreover have "p \<notin> below ?b"
        using bp below_same_length [of p ?b] length_backup [OF ne] by auto
      ultimately have "fs w3 p = fs w2 p" "fs w3 t = fs w2 t"
        using tb by (auto dest: touches_only_fs)
      with b3 p2 t2 True d show ?thesis by simp

    qed
  qed
qed

subsection \<open>The handler and the stages of a save\<close>

lemma touches_backup: "backup p w = (r, w') \<Longrightarrow> touches_only (below (backup_file_path p)) w w'"
  by (auto simp add: backup_def Let_def wait_for_file_availability_def copy2_def
      joinpath_def below_def intro!: touches_only_write_file
      split: if_splits option.splits node.splits)

lemma install_sigint: "sigint (snd (install p t ao cb w)) = sigint w"
proof -
  let ?x = "if exists_path w p then wait_for_file_availability p False w else (Inr True, w)"
  obtain rx where x: "?x = (rx, w)"
    by (cases ?x) (auto simp add: wait_for_file_availability_def split: if_splits)
  show ?thesis
  proof (cases rx)
    case (Inl e)
    with x show ?thesis by (simp add: install_def)
  next
    case (Inr a)
    obtain r2 w2 where m: "move t p w = (r2, w2)" by (cases "move t p w")
    have s2: "sigint w2 = sigint w"
      using touches_only_env [OF touches_move [OF m]] by (simp add: same_env_def)
    show ?thesis
    proof (cases r2)
      case (Inl e)
      with x m s2 \<open>rx = Inr a\<close> show ?thesis by (simp add: install_def)
    next
      case (Inr u)
      obtain r3 w3 where b: "backup p w2 = (r3, w3)" by (cases "backup p w2")
      have s3: "sigint w3 = sigint w2"
        using touches_only_env [OF touches_backup [OF b]] by (simp add: same_env_def)
      from x m b s2 s3 \<open>rx = Inr a\<close> \<open>r2 = Inr u\<close> show ?thesis
        by (cases r3) (auto simp add: install_def)
    qed
  qed
qed

lemma prepare_sigint: "sigint (snd (prepare ds p rf w)) = sigint w"
  using touches_only_env [OF prepare_frame [of ds p rf w "fst (prepare ds p rf w)" "snd (prepare ds p rf w)"]]
  by (simp add: same_env_def)

lemma save_to_file_success:
  assumes "save_to_file ds p rf ao cb w = (Inr (), w')"
  obtains t w1 w2 where "suffix p \<in> set valid_extensions"
    "prepare ds p rf (signal_signal Ignore_keyboard_interrupt w) = (Inr t, w1)"
    "install p t ao cb w1 = (Inr (), w2)" "w' = signal_signal Default_int_handler w2"
proof -
  let ?w0 = "signal_signal Ignore_keyboard_interrupt w"
  have v: "suffix p \<in> set valid_extensions"
    using assms by (auto simp add: save_to_file_def Let_def split: if_splits)
  obtain r1 w1 where p1: "prepare ds p rf ?w0 = (r1, w1)" by (cases "prepare ds p rf ?w0")
  show ?thesis
  proof (cases r1)
    case (Inl e)
    with assms v p1 show ?thesis by (simp add: save_to_file_def Let_def)
  next
    case (Inr t)
    obtain r2 w2 where i2: "install p t ao cb w1 = (r2, w2)" by (cases "install p t ao cb w1")
    with assms v p1 Inr have "r2 = Inr ()" "w' = signal_signal Default_int_handler w2"
      by (auto simp add: save_to_file_def Let_def)
    with that v p1 Inr i2 show ?thesis by blast
  qed
qed

subsection \<open>Format retention and the result of a save\<close>

lemma prepare_cases:
  obtains (failed) e w1 where "\<And>rf. prepare ds p rf w = (Inl e, w1)"
  | (written) t w3 where "prepare ds p False w = (Inr t, w3)"
      "prepare ds p True w =
         (case retain ds p t w3 of (Inl e, w4) \<Rightarrow> (Inl e, w4) | (Inr u, w4) \<Rightarrow> (Inr t, w4))"
proof -
  let ?d = "joinpath (parent p) ''TemporaryFiles''"
  obtain r1 w1 where m: "mkdir_exist_ok ?d w = (r1, w1)" by (cases "mkdir_exist_ok ?d w")
  show ?thesis
  proof (cases r1)
    case (Inl e)
    with m have "\<And>rf. prepare ds p rf w = (Inl e, w1)" by (simp add: prepare_def)
    then show ?thesis by (rule failed)
  next
    case (Inr u)
    obtain r2 w2 where n: "NamedTemporaryFile (suffix p) ?d w1 = (r2, w2)"
      by (cases "NamedTemporaryFile (suffix p) ?d w1")
    show ?thesis
    proof (cases r2)
      case (Inl e)
      with m n \<open>r1 = Inr u\<close> have "\<And>rf. prepare ds p rf w = (Inl e, w2)" by (simp add: prepare_def)
      then show ?thesis by (rule failed)
    next
      case (Inr t)
      with m n \<open>r1 = Inr u\<close> show ?thesis
        by (intro written [of t "serialise ds p t w2"]) (simp_all add: prepare_def Let_def)
    qed
  qed
qed

lemma reference_file_frame:
  "fs w' p = fs w p \<Longrightarrow> reference_file ds p w' = reference_file ds p w"
  by (simp add: reference_file_def exists_path_def)

lemma prepare_reference:
  assumes v: "suffix p \<in> set valid_extensions" and a: "prepare ds p False w = (Inr t, w3)"
  shows "reference_file ds p w3 = reference_file ds p w"
  using touches_only_fs [OF prepare_frame [OF a] dest_not_in_tempdir [OF v]]
  by (rule reference_file_frame)

lemma prepare_without_reference:
  assumes v: "suffix p \<in> set valid_extensions"
    and r: "reference_file ds p w = None
            \<or> (\<exists>r. reference_file ds p w = Some r \<and> suffix r \<notin> set [''.xlsx'', ''.xls''])"
  shows "prepare ds p True w = prepare ds p False w"
proof (cases rule: prepare_cases [of ds p w])
  case (failed e w1)
  then show ?thesis by simp
next
  case (written t w3)
  have "retain ds p t w3 = (Inr (), w3)"
    using r prepare_reference [OF v written(1)] by (auto simp add: retain_def)
  with written show ?thesis by simp
qed

lemma prepare_with_reference:
  assumes v: "suffix p \<in> set valid_extensions"
    and r: "reference_file ds p w = Some r" "suffix r \<in> set [''.xlsx'', ''.xls'']"
  shows "prepare ds p True w =
     (case prepare ds p False w of
        (Inl e, w1) \<Rightarrow> (Inl e, w1)
      | (Inr t, w3) \<Rightarrow>
          (case transfer_excel_format r t ds w3 of
             (Inl e, w4) \<Rightarrow> (Inl e, w4)
           | (Inr u, w4) \<Rightarrow> (Inr t, w4)))"
proof (cases rule: prepare_cases [of ds p w])
  case (failed e w1)
  then show ?thesis by simp
next
  case (written t w3)
  have "retain ds p t w3 = transfer_excel_format r t ds w3"
    using r prepare_reference [OF v written(1)] by (auto simp add: retain_def)
  with written show ?thesis by simp
qed

lemma w0_simps [simp]:
  "fs (signal_signal h w) = fs w" "busy (signal_signal h w) = busy w"
  "wait_attempts (signal_signal h w) = wait_attempts w"
  "history (signal_signal h w) = history w"
  "sigint (signal_signal h w) = h"
  "events (signal_signal h w) = events w @ [Signal h]"
  "exists_path (signal_signal h w) q = exists_path w q"
  "is_dir (signal_signal h w) q = is_dir w q"
  "reference_file ds p (signal_signal h w) = reference_file ds p w"
  by (simp_all add: signal_signal_def exists_path_def is_dir_def reference_file_def)

lemma temp_not_backup:
  assumes v: "suffix p \<in> set valid_extensions" and t: "t \<in> below (temp_file_dir p)"
  shows "backup_file_path p \<noteq> t" "t \<noteq> p"
  using backup_not_in_tempdir [OF v] dest_not_in_tempdir [OF v] t by auto

lemma temp_not_below_backup:
  assumes v: "suffix p \<in> set valid_extensions" and t: "t \<in> below (temp_file_dir p)"
  shows "t \<notin> below (backup_file_path p)"
proof
  assume "t \<in> below (backup_file_path p)"
  then have 1: "take (length (backup_file_path p)) t = backup_file_path p"
    by (simp add: below_def)
  have 2: "take (length (temp_file_dir p)) t = temp_file_dir p"
    using t by (simp add: below_def)
  have 3: "length (temp_file_dir p) = length (backup_file_path p)"
    by (simp add: temp_file_dir_def backup_file_path_def with_name_def joinpath_def)
  have "backup_file_path p = temp_file_dir p"
    using 1 2 unfolding 3 by (rule trans [OF sym])
  with backup_not_in_tempdir [OF v] show False by simp
qed

text \<open>What a completed save leaves at the destination and at the backup path.\<close>
lemma save_to_file_result:
  assumes s: "save_to_file ds p rf ao cb w = (Inr (), w')" and nd: "\<not> is_dir w p"
  obtains t w1 c where
    "prepare ds p rf (signal_signal Ignore_keyboard_interrupt w) = (Inr t, w1)"
    "fs w1 t = Some (File c)" "complete c" "fs w' p = Some (File c)" "fs w' t = None"
    "cb \<and> exists_path w (backup_file_path p)
        \<and> poll_available (wait_attempts w) (busy w (backup_file_path p))
        \<and> \<not> is_dir w (backup_file_path p) \<Longrightarrow> fs w' (backup_file_path p) = Some (File c)"
    "\<not> (cb \<and> exists_path w (backup_file_path p)
        \<and> poll_available (wait_attempts w) (busy w (backup_file_path p)))
        \<Longrightarrow> fs w' (backup_file_path p) = fs w (backup_file_path p)"
proof -
  let ?w0 = "signal_signal Ignore_keyboard_interrupt w"
  let ?b = "backup_file_path p"
  from s obtain t w1 w2 where v: "suffix p \<in> set valid_extensions"
    and p1: "prepare ds p rf ?w0 = (Inr t, w1)"
    and i2: "install p t ao cb w1 = (Inr (), w2)" and w': "w' = signal_signal Default_int_handler w2"
    by (rule save_to_file_success)
  have ne: "p \<noteq> []" by (rule valid_nonempty [OF v])
  from prepare_tmp [OF v p1] obtain c where tin: "t \<in> below (temp_file_dir p)"
    and c: "fs w1 t = Some (File c)" "complete c" by auto
  have fr: "touches_only (below (temp_file_dir p)) ?w0 w1" by (rule prepare_frame [OF p1])
  have fp: "fs w1 p = fs w p" using touches_only_fs [OF fr dest_not_in_tempdir [OF v]] by simp
  have fb: "fs w1 ?b = fs w ?b" using touches_only_fs [OF fr backup_not_in_tempdir [OF v]] by simp
  have env: "same_env ?w0 w1" by (rule touches_only_env [OF fr])
  have pa: "poll_available (wait_attempts w1) (busy w1 ?b) = poll_available (wait_attempts w) (busy w ?b)"
    using same_env_poll [OF env, of ?b] by simp
  have nd1: "\<not> is_dir w1 p" using nd is_dir_cong [OF fp] by simp
  note r = install_success [OF i2 c(1) nd1 temp_not_backup(2) [OF v tin] backup_not_dest [OF ne]
      temp_not_backup(1) [OF v tin] ne temp_not_below_backup [OF v tin]]
  show ?thesis
  proof (rule that [OF p1 c])
    show "fs w' p = Some (File c)" "fs w' t = None" using r w' by simp_all
    show "fs w' ?b = Some (File c)"
      if "cb \<and> exists_path w ?b \<and> poll_available (wait_attempts w) (busy w ?b) \<and> \<not> is_dir w ?b"
      using that r w' pa exists_path_cong [OF fb] is_dir_cong [OF fb] by simp
    show "fs w' ?b = fs w ?b"
      if "\<not> (cb \<and> exists_path w ?b \<and> poll_available (wait_attempts w) (busy w ?b))"
      using that r w' pa exists_path_cong [OF fb] fb by simp
  qed
qed

subsection \<open>The frame of the second stage, and the log\<close>

lemma install_frame:
  assumes "install p t ao cb w = (r, w')"
  shows "touches_only ({t} \<union> below p \<union> below (backup_file_path p)) w w'"
proof -
  let ?S = "{t} \<union> below p \<union> below (backup_file_path p)"
  let ?x = "if exists_path w p then wait_for_file_availability p False w else (Inr True, w)"
  obtain rx where x: "?x = (rx, w)"
    by (cases ?x) (auto simp add: wait_for_file_availability_def split: if_splits)
  show ?thesis
  proof (cases rx)
    case (Inl e)
    with x assms show ?thesis by (auto simp add: install_def)
  next
    case (Inr a)
    obtain r2 w2 where m: "move t p w = (r2, w2)" by (cases "move t p w")
    have t2: "touches_only ?S w w2"
      by (rule touches_only_mono [OF touches_move [OF m]]) auto
    show ?thesis
    proof (cases r2)
      case (Inl e)
      with x m t2 assms \<open>rx = Inr a\<close> show ?thesis by (auto simp add: install_def)
    next
      case (Inr u)
      obtain r3 w3 where b: "(if cb then backup p w2 else (Inr (), w2)) = (r3, w3)"
        by (cases "if cb then backup p w2 else (Inr (), w2)")
      have "touches_only (below (backup_file_path p)) w2 w3"
        using b touches_backup [of p w2 r3 w3] by (auto split: if_splits)
      then have t3: "touches_only ?S w w3"
        using touches_only_trans [OF t2 touches_only_mono] by blast
      have o: "touches_only ?S w (w3\<lparr>opened := x\<rparr>)" for x
        using t3 by (simp add: touches_only_def same_env_def)
      from x m b assms \<open>rx = Inr a\<close> \<open>r2 = Inr u\<close> t3 o show ?thesis
        by (cases r3) (auto simp add: install_def split: if_splits)
    qed
  qed
qed

lemma touches_only_events:
  assumes "touches_only S w w'"
  shows "events w' = events w @ replicate (length (history w') - length (history w)) Write
     \<and> length (history w) \<le> length (history w') \<and> sigint w' = sigint w"
  using assms by (auto simp add: touches_only_def same_env_def)

subsection \<open>What the Format Transplanter writes\<close>

lemma load_workbook_frame: "fs w' r = fs w r \<Longrightarrow> load_workbook r w' = load_workbook r w"
  by (simp add: load_workbook_def)

lemma set_alignments_values [simp]: "cell_values (set_alignments j a rs u) = cell_values u"
  by (induction rs arbitrary: u) simp_all

lemma apply_details_values:
  "apply_details d xs u = Inr u' \<Longrightarrow> cell_values u' = cell_values u"
proof (induction xs arbitrary: u)
  case Nil
  then show ?case by simp
next
  case (Cons x xs)
  obtain i l where x: "x = (i, l)" by (cases x)
  from Cons.prems x show ?case
    by (auto simp add: Let_def dest!: Cons.IH split: option.splits sum.splits)
qed

lemma transplanted_values: "transplanted ds sh = Inr u \<Longrightarrow> cell_values u = data ds"
  by (auto simp add: transplanted_def new_sheet_def dest!: apply_details_values split: sum.splits)

lemma holds_serialised [simp]: "holds_dataset ds (serialised ds p)"
  by (simp add: holds_dataset_def serialised_def new_sheet_def)

lemma holds_transplanted: "transplanted ds sh = Inr u \<Longrightarrow> holds_dataset ds (Workbook u)"
  by (simp add: holds_dataset_def transplanted_values)

lemma load_workbook_written:
  "load_workbook t w = Inr s \<Longrightarrow> fs w t = Some (File (Workbook s'))  \<Longrightarrow> s = s'"
  by (auto simp add: load_workbook_def split: if_splits)

lemma transfer_result:
  assumes "transfer_excel_format r t ds w = (Inr x, w')"
  shows "\<exists>sh u. load_workbook r w = Inr sh \<and> transplanted ds sh = Inr u
           \<and> fs w' t = Some (File (Workbook u))"
proof -
  from assms obtain sh where sh: "load_workbook r w = Inr sh"
    by (cases "load_workbook r w") (auto simp add: transfer_excel_format_def)
  from assms sh obtain d where d: "column_details sh = Inr d"
    by (cases "column_details sh") (auto simp add: transfer_excel_format_def)
  let ?w1 = "to_excel ds t (title sh) w"
  from assms sh d obtain us where us: "load_workbook t ?w1 = Inr us"
    by (cases "load_workbook t ?w1") (auto simp add: transfer_excel_format_def Let_def)
  have "fs ?w1 t = Some (File (Workbook (new_sheet (title sh) (data ds))))"
    by (simp add: to_excel_def)
  from load_workbook_written [OF us this] have us': "us = new_sheet (title sh) (data ds)" .
  from assms sh d us obtain u where u: "apply_details d (enumerate1 (map fst d)) us = Inr u"
    and w': "w' = write_file t (Workbook u) ?w1"
    by (cases "apply_details d (enumerate1 (map fst d)) us")
      (auto simp add: transfer_excel_format_def Let_def split: if_splits)
  have "transplanted ds sh = Inr u" using d u us' by (simp add: transplanted_def)
  with sh w' show ?thesis by simp
qed

lemma prepare_content:
  assumes v: "suffix p \<in> set valid_extensions" and a: "prepare ds p rf w = (Inr t, w')"
  shows "\<exists>c. fs w' t = Some (File c) \<and> holds_dataset ds c
     \<and> (\<not> rf \<or> reference_file ds p w = None
          \<or> (\<exists>r. reference_file ds p w = Some r \<and> suffix r \<notin> set [''.xlsx'', ''.xls''])
        \<longrightarrow> c = serialised ds p)
     \<and> (\<forall>r. rf \<and> reference_file ds p w = Some r \<and> suffix r \<in> set [''.xlsx'', ''.xls'']
            \<and> r \<notin> below (temp_file_dir p)
        \<longrightarrow> (\<exists>sh u. load_workbook r w = Inr sh \<and> transplanted ds sh = Inr u
                     \<and> c = Workbook u))"
proof (cases "\<not> rf \<or> reference_file ds p w = None
          \<or> (\<exists>r. reference_file ds p w = Some r \<and> suffix r \<notin> set [''.xlsx'', ''.xls''])")
  case True
  then have "prepare ds p False w = (Inr t, w')"
    using a prepare_without_reference [OF v, of ds w] by (cases rf) auto
  from prepare_tmp [OF v this] True show ?thesis by auto
next
  case False
  then obtain r where rf: rf and r: "reference_file ds p w = Some r"
    "suffix r \<in> set [''.xlsx'', ''.xls'']" by auto
  from a rf have a': "prepare ds p True w = (Inr t, w')" by simp
  obtain r0 w3 where p0: "prepare ds p False w = (r0, w3)" by (cases "prepare ds p False w")
  note pw = prepare_with_reference [OF v r]
  from a' pw p0 obtain b where r0b: "r0 = Inr b" by (cases r0) auto
  obtain ra wa where tb: "transfer_excel_format r b ds w3 = (ra, wa)"
    by (cases "transfer_excel_format r b ds w3")
  from a' pw p0 r0b tb
  have eq: "(case ra of Inl e \<Rightarrow> (Inl e, wa) | Inr u \<Rightarrow> (Inr b, wa)) = (Inr t, w')"
    by (cases ra) simp_all
  obtain x where r0: "r0 = Inr t"
    and tr: "transfer_excel_format r t ds w3 = (Inr x, w')"
  proof (cases ra)
    case (Inl e)
    with eq show ?thesis by simp
  next
    case (Inr x)
    with eq have "b = t" "wa = w'" by simp_all
    with that r0b tb Inr show ?thesis by simp
  qed
  from transfer_result [OF tr] obtain sh u where su: "load_workbook r w3 = Inr sh"
    "transplanted ds sh = Inr u" "fs w' t = Some (File (Workbook u))" by blast
  have fr: "touches_only (below (temp_file_dir p)) w w3"
    using prepare_frame p0 by blast
  have "load_workbook r w = Inr sh" if "r \<notin> below (temp_file_dir p)"
    using su(1) load_workbook_frame [OF touches_only_fs [OF fr that]] by simp
  then have "\<forall>r'. rf \<and> reference_file ds p w = Some r' \<and> suffix r' \<in> set [''.xlsx'', ''.xls'']
            \<and> r' \<notin> below (temp_file_dir p)
        \<longrightarrow> (\<exists>sh u. load_workbook r' w = Inr sh \<and> transplanted ds sh = Inr u
                     \<and> Workbook u' = Workbook u)" if "u' = u" for u'
    using su(2) r(1) that by auto
  moreover have "holds_dataset ds (Workbook u)" by (rule holds_transplanted [OF su(2)])
  ultimately show ?thesis using su(3) False by blast
qed


subsection \<open>A temporary file for delimited text is no workbook\<close>

lemma rfind_notin: "c \<notin> set ys \<Longrightarrow> rfind c ys = - 1"
  by (induction ys) (auto simp add: Let_def)

lemma rfind_last: "c \<notin> set ys \<Longrightarrow> rfind c (xs @ c # ys) = int (length xs)"
  by (induction xs) (auto simp add: Let_def rfind_notin)

lemma splitext_tmp_csv: "splitext_lower (joinpath d (''tmp'' @ x @ ''.csv'')) = ''.csv''"
proof -
  have "rfind (CHR ''.'') ((''tmp'' @ x) @ CHR ''.'' # ''csv'') = int (length (''tmp'' @ x))"
    by (rule rfind_last) simp
  then have r: "rfind (CHR ''.'') (''tmp'' @ x @ ''.csv'') = 3 + int (length x)" by simp
  have n: "nat (3 + int (length x)) = 3 + length x" by simp
  show ?thesis
    unfolding splitext_lower_def name_of_def joinpath_def Let_def
    by (simp add: r n lower_char_def del: append.simps)
qed

lemma prepare_tmp_name:
  assumes "prepare ds p rf w = (Inr t, w')"
  shows "\<exists>x. t = joinpath (temp_file_dir p) (''tmp'' @ x @ suffix p)"
proof -
  let ?d = "temp_file_dir p"
  from assms obtain u w1 where m: "mkdir_exist_ok ?d w = (Inr u, w1)"
    by (auto simp add: prepare_def temp_file_dir_def Let_def split: prod.splits sum.splits)
  from assms m obtain w2 where n: "NamedTemporaryFile (suffix p) ?d w1 = (Inr t, w2)"
    by (auto simp add: prepare_def temp_file_dir_def Let_def split: prod.splits sum.splits if_splits)
  from tmp_path [OF n] show ?thesis by blast
qed

lemma load_workbook_csv_tmp:
  assumes "t = joinpath d (''tmp'' @ x @ ''.csv'')"
  shows "load_workbook t w = Inl InvalidFileException"
proof -
  have "splitext_lower t = ''.csv''" unfolding assms by (rule splitext_tmp_csv)
  then show ?thesis by (simp add: load_workbook_def SUPPORTED_FORMATS_def)
qed

lemma transfer_to_csv_tmp:
  assumes "t = joinpath d (''tmp'' @ x @ ''.csv'')"
  shows "\<exists>e. fst (transfer_excel_format r t ds w) = Inl e"
  using load_workbook_csv_tmp [OF assms]
  by (auto simp add: transfer_excel_format_def Let_def split: sum.splits)

lemma transfer_to_csv_tmp_loaded:
  assumes "t = joinpath d (''tmp'' @ x @ ''.csv'')" "load_workbook r w = Inr sh"
    "column_details sh = Inr dd"
  shows "transfer_excel_format r t ds w
           = (Inl InvalidFileException, to_excel ds t (title sh) w)"
  using assms(2,3) load_workbook_csv_tmp [OF assms(1)]
  by (simp add: transfer_excel_format_def Let_def)


subsection \<open>Running the transplanter on a concrete world\<close>

lemma upt_unfold: "[m..<n] = (if m < n then m # [m + 1..<n] else [])"
  by (simp add: upt_conv_Cons)

lemmas transplant_defs = upt_unfold transfer_excel_format_def load_workbook_def splitext_lower_def
  SUPPORTED_FORMATS_def lower_char_def column_details_def get_column_letter_def
  column_index_from_string_def enumerate1_def


subsection \<open>The content a completed save installs\<close>

lemma save_to_file_content:
  assumes s: "save_to_file ds p rf ao cb w = (Inr (), w')" and nd: "\<not> is_dir w p"
  obtains c where "fs w' p = Some (File c)" "complete c" "holds_dataset ds c"
    "\<not> rf \<or> reference_file ds p w = None
       \<or> (\<exists>r. reference_file ds p w = Some r \<and> suffix r \<notin> set [''.xlsx'', ''.xls''])
     \<Longrightarrow> c = serialised ds p"
    "\<And>r. rf \<and> reference_file ds p w = Some r \<and> suffix r \<in> set [''.xlsx'', ''.xls'']
            \<and> r \<notin> below (temp_file_dir p)
        \<Longrightarrow> (\<exists>sh u. load_workbook r w = Inr sh \<and> transplanted ds sh = Inr u
                     \<and> c = Workbook u)"
    "cb \<and> exists_path w (backup_file_path p)
        \<and> poll_available (wait_attempts w) (busy w (backup_file_path p))
        \<and> \<not> is_dir w (backup_file_path p) \<Longrightarrow> fs w' (backup_file_path p) = Some (File c)"
    "\<not> (cb \<and> exists_path w (backup_file_path p)
        \<and> poll_available (wait_attempts w) (busy w (backup_file_path p)))
        \<Longrightarrow> fs w' (backup_file_path p) = fs w (backup_file_path p)"
proof -
  let ?w0 = "signal_signal Ignore_keyboard_interrupt w"
  let ?b = "backup_file_path p"
  have v: "suffix p \<in> set valid_extensions" by (rule save_to_file_success [OF s])
  obtain t w1 c where p1: "prepare ds p rf ?w0 = (Inr t, w1)"
    and c: "fs w1 t = Some (File c)" "complete c" "fs w' p = Some (File c)"
    and b1: "cb \<and> exists_path w ?b \<and> poll_available (wait_attempts w) (busy w ?b)
        \<and> \<not> is_dir w ?b \<Longrightarrow> fs w' ?b = Some (File c)"
    and b2: "\<not> (cb \<and> exists_path w ?b \<and> poll_available (wait_attempts w) (busy w ?b))
        \<Longrightarrow> fs w' ?b = fs w ?b"
    by (rule save_to_file_result [OF s nd]) blast
  have lw: "load_workbook r ?w0 = load_workbook r w" for r
    by (rule load_workbook_frame) simp
  from prepare_content [OF v p1] c(1)
  have pc: "holds_dataset ds c"
    "\<not> rf \<or> reference_file ds p w = None
       \<or> (\<exists>r. reference_file ds p w = Some r \<and> suffix r \<notin> set [''.xlsx'', ''.xls''])
     \<Longrightarrow> c = serialised ds p"
    "\<And>r. rf \<and> reference_file ds p w = Some r \<and> suffix r \<in> set [''.xlsx'', ''.xls'']
            \<and> r \<notin> below (temp_file_dir p)
        \<Longrightarrow> (\<exists>sh u. load_workbook r w = Inr sh \<and> transplanted ds sh = Inr u
                     \<and> c = Workbook u)"
    unfolding lw w0_simps by auto
  show ?thesis
    by (rule that [OF c(3) c(2) pc b1 b2])
qed

lemma report_backup_path: "backup_file_path report_xlsx = [''report - Backup.xlsx'']"
  by (simp add: path_defs report_xlsx_def Let_def)

section \<open>The backup\<close>

text \<open>
  C1, as the code has it. The backup is made after the move and only over a backup that
  is already there: when a save over an existing destination file with
  \<open>create_backup=True\<close> completes, and a backup file existed and became available
  within the wait policy, the destination holds the new content and the backup holds
  the same new content (a copy of the file just saved). The new content holds the
  dataset's table: it is the serialised dataset when no formatting is transplanted (no
  format retention, or a delimited-text target), and for a workbook target saved with
  format retention it is the workbook the Format Transplanter makes of the dataset and
  the sheet the destination held before. What happens when no backup file exists yet
  is left open here.
\<close>

theorem backup_is_copy_of_saved_file:
  assumes s: "save_to_file ds p rf ao True w = (Inr (), w')"
    and d: "fs w p = Some (File old)"
    and b: "fs w (backup_file_path p) = Some (File old_backup)"
    and a: "poll_available (wait_attempts w) (busy w (backup_file_path p))"
  shows "\<exists>c. complete c \<and> holds_dataset ds c
            \<and> fs w' p = Some (File c) \<and> fs w' (backup_file_path p) = Some (File c)
            \<and> (\<not> rf \<or> suffix p = ''.csv'' \<longrightarrow> c = serialised ds p)
            \<and> (rf \<and> suffix p = ''.xlsx'' \<longrightarrow>
                 (\<exists>sh u. load_workbook p w = Inr sh \<and> transplanted ds sh = Inr u
                        \<and> c = Workbook u))"
proof -
  have v: "suffix p \<in> set valid_extensions" by (rule save_to_file_success [OF s])
  have ne: "p \<noteq> []" by (rule valid_nonempty [OF v])
  have nd: "\<not> is_dir w p" using d ne by (simp add: is_dir_def)
  have ref: "reference_file ds p w = Some p"
    using d by (simp add: reference_file_def exists_path_def)
  have bx: "exists_path w (backup_file_path p)" "\<not> is_dir w (backup_file_path p)"
    using b by (simp_all add: exists_path_def is_dir_def backup_file_path_def with_name_def
        joinpath_def)
  obtain c where c: "fs w' p = Some (File c)" "complete c" "holds_dataset ds c"
    and ser: "\<not> rf \<or> reference_file ds p w = None
       \<or> (\<exists>r. reference_file ds p w = Some r \<and> suffix r \<notin> set [''.xlsx'', ''.xls''])
     \<Longrightarrow> c = serialised ds p"
    and tra: "\<And>r. rf \<and> reference_file ds p w = Some r \<and> suffix r \<in> set [''.xlsx'', ''.xls'']
            \<and> r \<notin> below (temp_file_dir p)
        \<Longrightarrow> (\<exists>sh u. load_workbook r w = Inr sh \<and> transplanted ds sh = Inr u
                     \<and> c = Workbook u)"
    and bk': "True \<and> exists_path w (backup_file_path p)
        \<and> poll_available (wait_attempts w) (busy w (backup_file_path p))
        \<and> \<not> is_dir w (backup_file_path p) \<Longrightarrow> fs w' (backup_file_path p) = Some (File c)"
    by (rule save_to_file_content [OF s nd]) blast
  have bk: "fs w' (backup_file_path p) = Some (File c)" using bk' a bx by simp
  have "c = serialised ds p" if "\<not> rf \<or> suffix p = ''.csv''"
    using ser that ref by auto
  moreover have "\<exists>sh u. load_workbook p w = Inr sh \<and> transplanted ds sh = Inr u \<and> c = Workbook u"
    if "rf \<and> suffix p = ''.xlsx''"
    using tra [of p] that ref dest_not_in_tempdir [OF v] by simp
  ultimately show ?thesis using c bk by blast
qed

theorem backup_is_copy_witness:
  "save_to_file loaded data_csv False False True with_backup
     = (Inr (), snd (save_to_file loaded data_csv False False True with_backup))
   \<and> fs with_backup data_csv = Some (File (Csv old_frame))
   \<and> fs with_backup (backup_file_path data_csv) = Some (File (Csv old_frame))
   \<and> poll_available (wait_attempts with_backup) (busy with_backup (backup_file_path data_csv))
   \<and> (\<exists>c. complete c
          \<and> fs (snd (save_to_file loaded data_csv False False True with_backup)) data_csv
              = Some (File c)
          \<and> fs (snd (save_to_file loaded data_csv False False True with_backup))
               (backup_file_path data_csv) = Some (File c)
          \<and> c = serialised loaded data_csv)
   \<and> save_to_file report report_xlsx True False True with_report
       = (Inr (), snd (save_to_file report report_xlsx True False True with_report))
   \<and> fs with_report report_xlsx = Some (File (Workbook formatted_sheet))
   \<and> fs with_report (backup_file_path report_xlsx) = Some (File (Workbook formatted_sheet))
   \<and> poll_available (wait_attempts with_report) (busy with_report (backup_file_path report_xlsx))
   \<and> suffix report_xlsx = ''.xlsx''
   \<and> (\<exists>u. transplanted report formatted_sheet = Inr u \<and> cell_values u = new_frame
          \<and> fs (snd (save_to_file report report_xlsx True False True with_report)) report_xlsx
              = Some (File (Workbook u))
          \<and> fs (snd (save_to_file report report_xlsx True False True with_report))
               (backup_file_path report_xlsx) = Some (File (Workbook u)))"
proof -
  let ?r = "save_to_file loaded data_csv False False True with_backup"
  have "fst ?r = Inr ()"
    by (simp add: run_defs path_defs example_defs)
  then have s: "?r = (Inr (), snd ?r)" by (simp add: prod_eq_iff)
  have d: "fs with_backup data_csv = Some (File (Csv old_frame))"
    and b: "fs with_backup (backup_file_path data_csv) = Some (File (Csv old_frame))"
    and a: "poll_available (wait_attempts with_backup) (busy with_backup (backup_file_path data_csv))"
    by (simp_all add: backup_path_example [unfolded data_csv_def] with_backup_def windows_def
        data_csv_def)
  let ?x = "save_to_file report report_xlsx True False True with_report"
  have "fst ?x = Inr ()"
    by (simp add: run_defs path_defs transplant_defs windows_def with_report_def report_def
        report_xlsx_def AdvancePandas_def formatted_sheet_def new_sheet_def)
  then have s': "?x = (Inr (), snd ?x)" by (simp add: prod_eq_iff)
  have d': "fs with_report report_xlsx = Some (File (Workbook formatted_sheet))"
    and b': "fs with_report (backup_file_path report_xlsx) = Some (File (Workbook formatted_sheet))"
    and a': "poll_available (wait_attempts with_report)
               (busy with_report (backup_file_path report_xlsx))"
    and x: "suffix report_xlsx = ''.xlsx''"
    by (simp_all add: report_backup_path [unfolded report_xlsx_def] with_report_def windows_def
        report_xlsx_def path_defs)
  have lw: "load_workbook report_xlsx with_report = Inr formatted_sheet"
    by (simp add: load_workbook_def splitext_lower_def name_of_def lower_char_def
        SUPPORTED_FORMATS_def with_report_def windows_def report_xlsx_def)
  have dr: "data report = new_frame" by (simp add: report_def AdvancePandas_def)
  from backup_is_copy_of_saved_file [OF s' d' b' a'] x lw
  obtain u where "transplanted report formatted_sheet = Inr u"
    "fs (snd ?x) report_xlsx = Some (File (Workbook u))"
    "fs (snd ?x) (backup_file_path report_xlsx) = Some (File (Workbook u))"
    by auto
  moreover from this have "cell_values u = new_frame"
    using transplanted_values dr by metis
  ultimately show ?thesis
    using backup_is_copy_of_saved_file [OF s d b a] s d b a s' d' b' a' x by simp
qed

text \<open>
  The claim as the spec states it fails in its own scenario, in both respects: with no
  backup beside \<open>data.csv\<close> the save creates none, and with one there the save
  overwrites it with the new content, not with the content \<open>data.csv\<close> had before.
\<close>

theorem backup_previous_content_counterexample:
  "fs with_data data_csv = Some (File (Csv old_frame))
   \<and> fst (save_to_file loaded data_csv False False True with_data) = Inr ()
   \<and> fs (snd (save_to_file loaded data_csv False False True with_data)) data_csv
       = Some (File (Csv new_frame))
   \<and> fs (snd (save_to_file loaded data_csv False False True with_data))
        [''data - Backup.csv''] = None
   \<and> backup_file_path data_csv = [''data - Backup.csv'']
   \<and> fs with_backup data_csv = Some (File (Csv old_frame))
   \<and> fst (save_to_file loaded data_csv False False True with_backup) = Inr ()
   \<and> fs (snd (save_to_file loaded data_csv False False True with_backup))
        [''data - Backup.csv''] = Some (File (Csv new_frame))
   \<and> Csv new_frame \<noteq> Csv old_frame"
  by (simp add: run_defs path_defs example_defs)


section \<open>Atomicity of the install\<close>

text \<open>
  C2 at the spec's own scenario, \<open>data.csv\<close> loaded and saved over itself, on Windows.
  The content is written to a temporary file in \<open>TemporaryFiles\<close> and installed with
  \<open>shutil.move\<close>. There \<open>os.rename\<close> refuses an existing destination, \<open>shutil.move\<close> falls
  back to copying the temporary file over the destination, and the save that succeeds
  passes through a state in which \<open>data.csv\<close> is partly written. Where \<open>os.rename\<close>
  replaces the destination, the same save takes \<open>data.csv\<close> from the old content to the
  new one in one step.
\<close>

theorem destination_partly_written_during_save:
  "fs with_data data_csv = Some (File (Csv old_frame))
   \<and> \<not> rename_replaces with_data
   \<and> fst (save_to_file loaded data_csv False False False with_data) = Inr ()
   \<and> fs (snd (save_to_file loaded data_csv False False False with_data)) data_csv
       = Some (File (Csv new_frame))
   \<and> (history (snd (save_to_file loaded data_csv False False False with_data)) ! 4) data_csv
       = Some (File Partial)
   \<and> \<not> complete Partial
   \<and> fst (save_to_file loaded data_csv False False False (with_data\<lparr>rename_replaces := True\<rparr>))
       = Inr ()
   \<and> map (\<lambda>f. f data_csv)
         (history (snd (save_to_file loaded data_csv False False False
                          (with_data\<lparr>rename_replaces := True\<rparr>))))
       = [Some (File (Csv old_frame)), Some (File (Csv old_frame)), Some (File (Csv old_frame)),
          Some (File (Csv old_frame)), Some (File (Csv new_frame))]"
  by (simp add: run_defs path_defs example_defs complete_def)


section \<open>The interrupt handler\<close>

text \<open>
  C3, as the code has it. For every call of \<open>_save_to_file\<close> on a path with a supported
  extension, on every exit path, success or failure, the calls of \<open>signal.signal\<close> and the
  writes to the file system happen in this order: first the handler
  \<open>ignore_keyboard_interrupt\<close> is installed, then come all the writes of the save, and
  last Python's default handler \<open>signal.default_int_handler\<close> is installed. Nothing else
  changes the handler in between, so every write happens under the handler installed at
  entry; and the handler after the call is the default one, whatever handler was in
  effect before the call: that one is not recorded.
\<close>

theorem interrupt_handler_around_save:
  assumes "suffix p \<in> set valid_extensions"
  shows "sigint (snd (save_to_file ds p rf ao cb w)) = Default_int_handler
     \<and> length (history w) \<le> length (history (snd (save_to_file ds p rf ao cb w)))
     \<and> events (snd (save_to_file ds p rf ao cb w))
         = events w @ [Signal Ignore_keyboard_interrupt]
           @ replicate (length (history (snd (save_to_file ds p rf ao cb w)))
                          - length (history w)) Write
           @ [Signal Default_int_handler]"
proof -
  let ?w0 = "signal_signal Ignore_keyboard_interrupt w"
  obtain r1 w1 where p1: "prepare ds p rf ?w0 = (r1, w1)" by (cases "prepare ds p rf ?w0")
  note e1 = touches_only_events [OF prepare_frame [OF p1]]
  show ?thesis
  proof (cases r1)
    case (Inl e)
    with p1 assms e1 show ?thesis by (simp add: save_to_file_def Let_def signal_signal_def)
  next
    case (Inr t)
    obtain r2 w2 where i2: "install p t ao cb w1 = (r2, w2)" by (cases "install p t ao cb w1")
    note e2 = touches_only_events [OF install_frame [OF i2]]
    have "replicate (length (history w1) - length (history w)) Write
          @ replicate (length (history w2) - length (history w1)) Write
        = replicate (length (history w2) - length (history w)) Write"
      using e1 e2 by (simp add: replicate_add [symmetric] signal_signal_def)
    with p1 i2 Inr assms e1 e2 show ?thesis
      by (simp add: save_to_file_def Let_def signal_signal_def)
  qed
qed

theorem interrupt_handler_witness:
  "suffix data_csv \<in> set valid_extensions
   \<and> sigint (snd (save_to_file loaded data_csv False False False with_data)) = Default_int_handler
   \<and> events (snd (save_to_file loaded data_csv False False False with_data))
       = Signal Ignore_keyboard_interrupt # replicate 7 Write @ [Signal Default_int_handler]"
proof -
  have v: "suffix data_csv \<in> set valid_extensions"
    by (simp add: path_defs data_csv_def)
  have h: "length (history (snd (save_to_file loaded data_csv False False False with_data))) = 7"
    "history with_data = []" "events with_data = []"
    by (simp_all add: run_defs path_defs example_defs)
  show ?thesis
    using v h interrupt_handler_around_save [OF v, of loaded False False False with_data]
    by simp
qed

text \<open>
  The claim as the spec states it fails twice. A handler other than the default one that
  was in effect before the call is replaced by the default one; and the
  unsupported-extension failure is raised after the handler is installed and before the
  \<open>try\<close> whose \<open>finally\<close> resets it, so that the installed handler stays: the only
  event of that call is the installation at entry.
\<close>

theorem sigint_not_restored_counterexample:
  "sigint (with_data\<lparr>sigint := Other_handler 1\<rparr>) = Other_handler 1
   \<and> fst (save_to_file loaded data_csv False False False (with_data\<lparr>sigint := Other_handler 1\<rparr>))
       = Inr ()
   \<and> sigint (snd (save_to_file loaded data_csv False False False
                    (with_data\<lparr>sigint := Other_handler 1\<rparr>))) = Default_int_handler
   \<and> sigint with_data = Default_int_handler
   \<and> fst (save_to_file loaded [''data.txt''] False False False with_data)
       = Inl UnsupportedExtension
   \<and> sigint (snd (save_to_file loaded [''data.txt''] False False False with_data))
       = Ignore_keyboard_interrupt
   \<and> events (snd (save_to_file loaded [''data.txt''] False False False with_data))
       = [Signal Ignore_keyboard_interrupt]"
  by (simp add: run_defs path_defs example_defs)


section \<open>A backup that never becomes available\<close>

text \<open>
  C5. When the backup path exists and does not become available within the wait
  policy, a save with \<open>create_backup=True\<close> is the save without it: the backup step adds
  no failure and changes nothing. So when the save proper succeeds on a destination
  that is not a directory, the save with the backup requested succeeds, the backup file
  is as it was, and the destination holds the new complete content, which carries the
  values of the dataset: the serialised dataset when no format was transplanted (no
  format retention requested, no reference, or a reference without a spreadsheet
  extension), and otherwise the workbook that the Format Transplanter makes of the
  dataset and the reference's sheet.
\<close>

theorem locked_backup_is_skipped:
  assumes ex: "exists_path w (backup_file_path p)"
    and na: "\<not> poll_available (wait_attempts w) (busy w (backup_file_path p))"
  shows "save_to_file ds p rf ao True w = save_to_file ds p rf ao False w
     \<and> (fst (save_to_file ds p rf ao False w) = Inr () \<and> \<not> is_dir w p \<longrightarrow>
          fst (save_to_file ds p rf ao True w) = Inr ()
          \<and> (\<exists>c. complete c \<and> holds_dataset ds c
                 \<and> fs (snd (save_to_file ds p rf ao True w)) p = Some (File c)
                 \<and> (\<not> rf \<or> reference_file ds p w = None
                      \<or> (\<exists>r. reference_file ds p w = Some r
                              \<and> suffix r \<notin> set [''.xlsx'', ''.xls''])
                    \<longrightarrow> c = serialised ds p)
                 \<and> (\<forall>r. rf \<and> reference_file ds p w = Some r
                          \<and> suffix r \<in> set [''.xlsx'', ''.xls'']
                          \<and> r \<notin> below (temp_file_dir p)
                    \<longrightarrow> (\<exists>sh u. load_workbook r w = Inr sh \<and> transplanted ds sh = Inr u
                                 \<and> c = Workbook u)))
          \<and> fs (snd (save_to_file ds p rf ao True w)) (backup_file_path p)
              = fs w (backup_file_path p))"
proof -
  let ?w0 = "signal_signal Ignore_keyboard_interrupt w"
  let ?b = "backup_file_path p"
  have eq: "save_to_file ds p rf ao True w = save_to_file ds p rf ao False w"
  proof (cases "suffix p \<in> set valid_extensions")
    case False
    then show ?thesis by (simp add: save_to_file_def)
  next
    case v: True
    have ne: "p \<noteq> []" by (rule valid_nonempty [OF v])
    obtain r1 w1 where p1: "prepare ds p rf ?w0 = (r1, w1)" by (cases "prepare ds p rf ?w0")
    show ?thesis
    proof (cases r1)
      case (Inl e)
      with p1 v show ?thesis by (simp add: save_to_file_def Let_def)
    next
      case (Inr t)
      have fr: "touches_only (below (temp_file_dir p)) ?w0 w1" by (rule prepare_frame [OF p1])
      have fb: "fs w1 ?b = fs w ?b"
        using touches_only_fs [OF fr backup_not_in_tempdir [OF v]] by simp
      have pa: "poll_available (wait_attempts w1) (busy w1 ?b)
                  = poll_available (wait_attempts w) (busy w ?b)"
        using same_env_poll [OF touches_only_env [OF fr], of ?b] by simp
      have tin: "t \<in> below (temp_file_dir p)" using prepare_tmp [OF v] p1 Inr by simp
      have "install p t ao True w1 = install p t ao False w1"
        using install_backup_unavailable [OF ne temp_not_backup(1) [OF v tin], of w1 ao]
          ex na pa exists_path_cong [OF fb] by simp
      with p1 Inr v show ?thesis by (simp add: save_to_file_def Let_def)
    qed
  qed
  moreover have "fst (save_to_file ds p rf ao True w) = Inr ()
      \<and> (\<exists>c. complete c \<and> holds_dataset ds c
             \<and> fs (snd (save_to_file ds p rf ao True w)) p = Some (File c)
             \<and> (\<not> rf \<or> reference_file ds p w = None
                  \<or> (\<exists>r. reference_file ds p w = Some r
                          \<and> suffix r \<notin> set [''.xlsx'', ''.xls''])
                \<longrightarrow> c = serialised ds p)
             \<and> (\<forall>r. rf \<and> reference_file ds p w = Some r
                      \<and> suffix r \<in> set [''.xlsx'', ''.xls'']
                      \<and> r \<notin> below (temp_file_dir p)
                \<longrightarrow> (\<exists>sh u. load_workbook r w = Inr sh \<and> transplanted ds sh = Inr u
                             \<and> c = Workbook u)))
      \<and> fs (snd (save_to_file ds p rf ao True w)) ?b = fs w ?b"
    if ok: "fst (save_to_file ds p rf ao False w) = Inr ()" and nd: "\<not> is_dir w p"
  proof -
    let ?w' = "snd (save_to_file ds p rf ao False w)"
    have s: "save_to_file ds p rf ao False w = (Inr (), ?w')" using ok by (simp add: prod_eq_iff)
    obtain c where c: "fs ?w' p = Some (File c)" "complete c" "holds_dataset ds c"
      and ser: "\<not> rf \<or> reference_file ds p w = None
         \<or> (\<exists>r. reference_file ds p w = Some r \<and> suffix r \<notin> set [''.xlsx'', ''.xls''])
       \<Longrightarrow> c = serialised ds p"
      and tra: "\<And>r. rf \<and> reference_file ds p w = Some r \<and> suffix r \<in> set [''.xlsx'', ''.xls'']
              \<and> r \<notin> below (temp_file_dir p)
          \<Longrightarrow> (\<exists>sh u. load_workbook r w = Inr sh \<and> transplanted ds sh = Inr u
                       \<and> c = Workbook u)"
      and bk: "\<not> (False \<and> exists_path w ?b \<and> poll_available (wait_attempts w) (busy w ?b))
                 \<Longrightarrow> fs ?w' ?b = fs w ?b"
      by (rule save_to_file_content [OF s nd]) blast
    have "fs ?w' ?b = fs w ?b" using bk by simp
    with c ser tra ok show ?thesis unfolding eq by blast
  qed
  ultimately show ?thesis by blast
qed

theorem locked_backup_witness:
  "exists_path backup_locked (backup_file_path data_csv)
   \<and> \<not> poll_available (wait_attempts backup_locked) (busy backup_locked (backup_file_path data_csv))
   \<and> save_to_file loaded data_csv False False True backup_locked
       = save_to_file loaded data_csv False False False backup_locked
   \<and> fst (save_to_file loaded data_csv False False False backup_locked) = Inr ()
   \<and> \<not> is_dir backup_locked data_csv
   \<and> fst (save_to_file loaded data_csv False False True backup_locked) = Inr ()
   \<and> fs (snd (save_to_file loaded data_csv False False True backup_locked)) data_csv
       = Some (File (serialised loaded data_csv))
   \<and> fs (snd (save_to_file loaded data_csv False False True backup_locked))
        (backup_file_path data_csv) = fs backup_locked (backup_file_path data_csv)
   \<and> exists_path report_locked (backup_file_path report_xlsx)
   \<and> \<not> poll_available (wait_attempts report_locked)
         (busy report_locked (backup_file_path report_xlsx))
   \<and> fst (save_to_file report report_xlsx True False False report_locked) = Inr ()
   \<and> \<not> is_dir report_locked report_xlsx
   \<and> reference_file report report_xlsx report_locked = Some report_xlsx
   \<and> suffix report_xlsx \<in> set [''.xlsx'', ''.xls'']
   \<and> report_xlsx \<notin> below (temp_file_dir report_xlsx)
   \<and> load_workbook report_xlsx report_locked = Inr formatted_sheet
   \<and> fst (save_to_file report report_xlsx True False True report_locked) = Inr ()
   \<and> (\<exists>u. transplanted report formatted_sheet = Inr u \<and> cell_values u = new_frame
          \<and> fs (snd (save_to_file report report_xlsx True False True report_locked)) report_xlsx
              = Some (File (Workbook u)))
   \<and> fs (snd (save_to_file report report_xlsx True False True report_locked))
        (backup_file_path report_xlsx) = Some (File (Workbook formatted_sheet))"
proof -
  have ex: "exists_path backup_locked (backup_file_path data_csv)"
    and na: "\<not> poll_available (wait_attempts backup_locked)
                (busy backup_locked (backup_file_path data_csv))"
    and nd: "\<not> is_dir backup_locked data_csv"
    by (simp_all add: backup_path_example [unfolded data_csv_def] exists_path_def is_dir_def
        example_defs)
  have ok: "fst (save_to_file loaded data_csv False False False backup_locked) = Inr ()"
    by (simp add: run_defs path_defs example_defs)
  have ex': "exists_path report_locked (backup_file_path report_xlsx)"
    and na': "\<not> poll_available (wait_attempts report_locked)
                (busy report_locked (backup_file_path report_xlsx))"
    and nd': "\<not> is_dir report_locked report_xlsx"
    and b': "fs report_locked (backup_file_path report_xlsx)
               = Some (File (Workbook formatted_sheet))"
    and rf: "reference_file report report_xlsx report_locked = Some report_xlsx"
    and x: "suffix report_xlsx \<in> set [''.xlsx'', ''.xls'']"
    and nb: "report_xlsx \<notin> below (temp_file_dir report_xlsx)"
    by (simp_all add: report_backup_path [unfolded report_xlsx_def] exists_path_def is_dir_def
        reference_file_def report_locked_def with_report_def windows_def report_xlsx_def
        path_defs below_def temp_file_dir_def)
  have ok': "fst (save_to_file report report_xlsx True False False report_locked) = Inr ()"
    by (simp add: run_defs path_defs transplant_defs windows_def with_report_def report_def
        report_locked_def report_xlsx_def AdvancePandas_def formatted_sheet_def new_sheet_def)
  have lw: "load_workbook report_xlsx report_locked = Inr formatted_sheet"
    by (simp add: load_workbook_def splitext_lower_def name_of_def lower_char_def
        SUPPORTED_FORMATS_def with_report_def report_locked_def windows_def report_xlsx_def)
  have dr: "data report = new_frame" by (simp add: report_def AdvancePandas_def)
  let ?x = "save_to_file report report_xlsx True False True report_locked"
  from locked_backup_is_skipped [OF ex' na', of report True False] ok' nd' rf x nb lw
  obtain u where u: "fst ?x = Inr ()" "transplanted report formatted_sheet = Inr u"
    "fs (snd ?x) report_xlsx = Some (File (Workbook u))"
    "fs (snd ?x) (backup_file_path report_xlsx) = fs report_locked (backup_file_path report_xlsx)"
    by auto
  moreover from u(2) have "cell_values u = new_frame"
    using transplanted_values dr by metis
  ultimately show ?thesis
    using locked_backup_is_skipped [OF ex na, of loaded False False] ex na nd ok
      ex' na' nd' ok' rf x nb lw b' by auto
qed


section \<open>Format retention: the reference file\<close>

text \<open>
  C6, as the code has it. For a save with \<open>retain_format=True\<close> the reference is the
  target path if the target exists, else the dataset's recorded source path, else none.
  The recorded source path is taken as it is: whether a file is there is not checked.
  When there is no reference, or its extension is not a spreadsheet one, nothing is
  transplanted: the save is the save without format retention. When there is a reference
  with a spreadsheet extension, the save runs the steps of the save without retention up
  to the serialised temporary file, then the Format Transplanter on the reference, the
  temporary file and the dataset, and only when that succeeded the wait, the move and
  the backup; a failure of the transplanter is the failure of the save. So a reference
  that is not on disk makes the save fail (with the loader's file-not-found error, or
  its invalid-file error for an extension the loader refuses, when the save without
  retention would have succeeded); and a save that succeeds leaves at the destination
  the workbook the transplanter made of the dataset and the reference's sheet.
\<close>

theorem format_retention_reference:
  assumes v: "suffix p \<in> set valid_extensions"
  shows "reference_file ds p w = (if exists_path w p then Some p else source_file ds)
     \<and> (reference_file ds p w = None
          \<or> (\<exists>r. reference_file ds p w = Some r \<and> suffix r \<notin> set [''.xlsx'', ''.xls''])
        \<longrightarrow> save_to_file ds p True ao cb w = save_to_file ds p False ao cb w)
     \<and> (reference_file ds p w = Some r \<and> suffix r \<in> set [''.xlsx'', ''.xls'']
        \<longrightarrow> save_to_file ds p True ao cb w =
              (case prepare ds p False (signal_signal Ignore_keyboard_interrupt w) of
                 (Inl e, w1) \<Rightarrow> (Inl e, signal_signal Default_int_handler w1)
               | (Inr t, w3) \<Rightarrow>
                   (case transfer_excel_format r t ds w3 of
                      (Inl e, w4) \<Rightarrow> (Inl e, signal_signal Default_int_handler w4)
                    | (Inr u, w4) \<Rightarrow>
                        (case install p t ao cb w4 of
                           (res, w5) \<Rightarrow> (res, signal_signal Default_int_handler w5))))
          \<and> (fs w r = None \<and> r \<notin> below (temp_file_dir p)
              \<longrightarrow> (\<exists>e. fst (save_to_file ds p True ao cb w) = Inl e)
                \<and> (fst (save_to_file ds p False ao cb w) = Inr ()
                    \<longrightarrow> fst (save_to_file ds p True ao cb w)
                          = Inl (if splitext_lower r \<in> set SUPPORTED_FORMATS
                                 then FileNotFoundError else InvalidFileException)))
          \<and> (fst (save_to_file ds p True ao cb w) = Inr () \<and> \<not> is_dir w p
                \<and> r \<notin> below (temp_file_dir p)
              \<longrightarrow> (\<exists>sh u. load_workbook r w = Inr sh \<and> transplanted ds sh = Inr u
                      \<and> fs (snd (save_to_file ds p True ao cb w)) p = Some (File (Workbook u)))))"
proof -
  let ?w0 = "signal_signal Ignore_keyboard_interrupt w"
  let ?chain = "case prepare ds p False ?w0 of
                 (Inl e, w1) \<Rightarrow> (Inl e, signal_signal Default_int_handler w1)
               | (Inr t, w3) \<Rightarrow>
                   (case transfer_excel_format r t ds w3 of
                      (Inl e, w4) \<Rightarrow> (Inl e, signal_signal Default_int_handler w4)
                    | (Inr u, w4) \<Rightarrow>
                        (case install p t ao cb w4 of
                           (res, w5) \<Rightarrow> (res, signal_signal Default_int_handler w5)))"
  have none: "save_to_file ds p True ao cb w = save_to_file ds p False ao cb w"
    if "reference_file ds p w = None
          \<or> (\<exists>r. reference_file ds p w = Some r \<and> suffix r \<notin> set [''.xlsx'', ''.xls''])"
  proof -
    have "prepare ds p True ?w0 = prepare ds p False ?w0"
      using prepare_without_reference [OF v, of ds ?w0] that by simp
    then show ?thesis by (simp add: save_to_file_def Let_def)
  qed
  have some: "save_to_file ds p True ao cb w = ?chain
      \<and> (fs w r = None \<and> r \<notin> below (temp_file_dir p)
          \<longrightarrow> (\<exists>e. fst (save_to_file ds p True ao cb w) = Inl e)
            \<and> (fst (save_to_file ds p False ao cb w) = Inr ()
                \<longrightarrow> fst (save_to_file ds p True ao cb w)
                      = Inl (if splitext_lower r \<in> set SUPPORTED_FORMATS
                             then FileNotFoundError else InvalidFileException)))
      \<and> (fst (save_to_file ds p True ao cb w) = Inr () \<and> \<not> is_dir w p
            \<and> r \<notin> below (temp_file_dir p)
          \<longrightarrow> (\<exists>sh u. load_workbook r w = Inr sh \<and> transplanted ds sh = Inr u
                  \<and> fs (snd (save_to_file ds p True ao cb w)) p = Some (File (Workbook u))))"
    if ref: "reference_file ds p w = Some r" and x: "suffix r \<in> set [''.xlsx'', ''.xls'']"
  proof -
    have ref0: "reference_file ds p ?w0 = Some r" using ref by simp
    note pt = prepare_with_reference [OF v ref0 x]
    obtain r0 w3 where p0: "prepare ds p False ?w0 = (r0, w3)"
      by (cases "prepare ds p False ?w0")
    have chain: "save_to_file ds p True ao cb w = ?chain"
      using v pt p0
      by (cases r0; cases "transfer_excel_format r (projr r0) ds w3";
          cases "fst (transfer_excel_format r (projr r0) ds w3)")
        (simp_all add: save_to_file_def Let_def split: prod.splits)
    have missing: "(\<exists>e. fst (save_to_file ds p True ao cb w) = Inl e)
            \<and> (fst (save_to_file ds p False ao cb w) = Inr ()
                \<longrightarrow> fst (save_to_file ds p True ao cb w)
                      = Inl (if splitext_lower r \<in> set SUPPORTED_FORMATS
                             then FileNotFoundError else InvalidFileException))"
      if m: "fs w r = None" and nb: "r \<notin> below (temp_file_dir p)"
    proof (cases r0)
      case (Inl e)
      with p0 v chain show ?thesis
        by (simp add: save_to_file_def Let_def split: prod.splits)
    next
      case (Inr t)
      have "fs w3 r = fs ?w0 r"
        using touches_only_fs [OF prepare_frame [OF p0] nb] .
      then have "fs w3 r = None" using m by simp
      then have "transfer_excel_format r t ds w3
          = (Inl (if splitext_lower r \<in> set SUPPORTED_FORMATS
                  then FileNotFoundError else InvalidFileException), w3)"
        by (simp add: transfer_excel_format_def load_workbook_def)
      with p0 Inr chain show ?thesis by simp
    qed
    have fin: "\<exists>sh u. load_workbook r w = Inr sh \<and> transplanted ds sh = Inr u
                  \<and> fs (snd (save_to_file ds p True ao cb w)) p = Some (File (Workbook u))"
      if ok: "fst (save_to_file ds p True ao cb w) = Inr ()" and nd: "\<not> is_dir w p"
        and nb: "r \<notin> below (temp_file_dir p)"
    proof -
      let ?w' = "snd (save_to_file ds p True ao cb w)"
      have s: "save_to_file ds p True ao cb w = (Inr (), ?w')"
        using ok by (simp add: prod_eq_iff)
      obtain c where c: "fs ?w' p = Some (File c)"
        and tra: "\<And>r. True \<and> reference_file ds p w = Some r
              \<and> suffix r \<in> set [''.xlsx'', ''.xls''] \<and> r \<notin> below (temp_file_dir p)
          \<Longrightarrow> (\<exists>sh u. load_workbook r w = Inr sh \<and> transplanted ds sh = Inr u
                       \<and> c = Workbook u)"
        by (rule save_to_file_content [OF s nd]) blast
      from tra [of r] ref x nb c show ?thesis by auto
    qed
    from chain missing fin show ?thesis by blast
  qed
  have "reference_file ds p w = (if exists_path w p then Some p else source_file ds)"
    by (simp add: reference_file_def)
  with none some show ?thesis by blast
qed

theorem format_retention_witness:
  "suffix [''out.xlsx''] \<in> set valid_extensions
   \<and> reference_file unsourced [''out.xlsx''] windows = None
   \<and> save_to_file unsourced [''out.xlsx''] True False False windows
       = save_to_file unsourced [''out.xlsx''] False False False windows
   \<and> reference_file from_gone [''out.xlsx''] windows = Some [''gone.xlsx'']
   \<and> suffix [''gone.xlsx''] \<in> set [''.xlsx'', ''.xls'']
   \<and> fs windows [''gone.xlsx''] = None
   \<and> [''gone.xlsx''] \<notin> below (temp_file_dir [''out.xlsx''])
   \<and> fst (save_to_file from_gone [''out.xlsx''] False False False windows) = Inr ()
   \<and> fst (save_to_file from_gone [''out.xlsx''] True False False windows) = Inl FileNotFoundError
   \<and> suffix report_xlsx \<in> set valid_extensions
   \<and> reference_file report report_xlsx with_report = Some report_xlsx
   \<and> suffix report_xlsx \<in> set [''.xlsx'', ''.xls'']
   \<and> fst (save_to_file report report_xlsx True False False with_report) = Inr ()
   \<and> \<not> is_dir with_report report_xlsx
   \<and> report_xlsx \<notin> below (temp_file_dir report_xlsx)
   \<and> load_workbook report_xlsx with_report = Inr formatted_sheet
   \<and> (\<exists>u. transplanted report formatted_sheet = Inr u \<and> cell_values u = new_frame
          \<and> fs (snd (save_to_file report report_xlsx True False False with_report)) report_xlsx
              = Some (File (Workbook u)))"
proof -
  have v: "suffix [''out.xlsx''] \<in> set valid_extensions"
    and x: "suffix [''gone.xlsx''] \<in> set [''.xlsx'', ''.xls'']"
    and nb: "[''gone.xlsx''] \<notin> below (temp_file_dir [''out.xlsx''])"
    and sf: "splitext_lower [''gone.xlsx''] \<in> set SUPPORTED_FORMATS"
    and xs: "suffix [''gone.xlsx''] = ''.xlsx''"
    by (simp_all add: path_defs below_def temp_file_dir_def splitext_lower_def lower_char_def
        SUPPORTED_FORMATS_def)
  have n: "reference_file unsourced [''out.xlsx''] windows = None"
    and g: "reference_file from_gone [''out.xlsx''] windows = Some [''gone.xlsx'']"
    and m: "fs windows [''gone.xlsx''] = None"
    by (simp_all add: reference_file_def exists_path_def unsourced_def from_gone_def
        AdvancePandas_def windows_def)
  have sf': "(if splitext_lower [''gone.xlsx''] \<in> set SUPPORTED_FORMATS
              then FileNotFoundError else InvalidFileException) = FileNotFoundError"
    using sf by simp
  have ok: "fst (save_to_file from_gone [''out.xlsx''] False False False windows) = Inr ()"
    by (simp add: run_defs path_defs example_defs)
  have v': "suffix report_xlsx \<in> set valid_extensions"
    and x': "suffix report_xlsx \<in> set [''.xlsx'', ''.xls'']"
    and g': "reference_file report report_xlsx with_report = Some report_xlsx"
    and nd': "\<not> is_dir with_report report_xlsx"
    and nb': "report_xlsx \<notin> below (temp_file_dir report_xlsx)"
    by (simp_all add: path_defs below_def temp_file_dir_def reference_file_def exists_path_def
        is_dir_def with_report_def windows_def report_xlsx_def)
  have ok': "fst (save_to_file report report_xlsx True False False with_report) = Inr ()"
    by (simp add: run_defs path_defs transplant_defs windows_def with_report_def report_def
        report_xlsx_def AdvancePandas_def formatted_sheet_def new_sheet_def)
  have lw: "load_workbook report_xlsx with_report = Inr formatted_sheet"
    by (simp add: load_workbook_def splitext_lower_def name_of_def lower_char_def
        SUPPORTED_FORMATS_def with_report_def windows_def report_xlsx_def)
  have dr: "data report = new_frame" by (simp add: report_def AdvancePandas_def)
  from format_retention_reference [OF v', of report with_report False False report_xlsx]
    g' x' ok' nd' nb' lw
  obtain u where u: "transplanted report formatted_sheet = Inr u"
    "fs (snd (save_to_file report report_xlsx True False False with_report)) report_xlsx
       = Some (File (Workbook u))"
    by auto
  moreover from u(1) have "cell_values u = new_frame"
    using transplanted_values dr by metis
  moreover have "fst (save_to_file from_gone [''out.xlsx''] True False False windows)
      = Inl FileNotFoundError"
    using format_retention_reference [OF v, of from_gone windows False False "[''gone.xlsx'']"]
      g x m nb ok unfolding sf' by blast
  moreover have "save_to_file unsourced [''out.xlsx''] True False False windows
       = save_to_file unsourced [''out.xlsx''] False False False windows"
    using format_retention_reference [OF v, of unsourced windows False False "[''gone.xlsx'']"] n
    by blast
  ultimately show ?thesis
    using v x n g m nb ok v' x' g' nd' nb' ok' lw by blast
qed

text \<open>
  Read as "a reference that is not on disk is passed over", the claim fails: a save to
  a new \<open>out.xlsx\<close> of a dataset whose source \<open>gone.xlsx\<close> has been removed runs the
  transplanter on the missing file and fails, where the same save without format
  retention succeeds.
\<close>

theorem missing_reference_counterexample:
  "reference_file from_gone [''out.xlsx''] windows = Some [''gone.xlsx'']
   \<and> \<not> exists_path windows [''gone.xlsx'']
   \<and> fst (save_to_file from_gone [''out.xlsx''] True False False windows) = Inl FileNotFoundError
   \<and> fst (save_to_file from_gone [''out.xlsx''] False False False windows) = Inr ()"
  by (simp add: run_defs path_defs example_defs transfer_excel_format_def
      load_workbook_def splitext_lower_def SUPPORTED_FORMATS_def lower_char_def)


section \<open>Format retention onto a delimited-text target\<close>

text \<open>
  C10, as the code has it. For a save to a \<open>.csv\<close> target path that does not yet exist,
  with \<open>retain_format=True\<close> and a dataset whose recorded source path has a spreadsheet
  extension, the save fails and the destination is never created. The Format
  Transplanter is run on a temporary file that carries the target's extension \<open>.csv\<close>:
  when the source workbook loads and its column details are read, the transplanter
  writes the dataset as a workbook into the temporary file, and the workbook loader then
  refuses to open that file for its extension. The save fails with the loader's
  invalid-file error, before the move; the temporary file stays behind, holding the
  workbook.
\<close>

theorem csv_target_with_workbook_source_fails:
  assumes c: "suffix p = ''.csv''"
    and x: "\<not> exists_path w p"
    and src: "source_file ds = Some r"
    and sx: "suffix r \<in> set [''.xlsx'', ''.xls'']"
  shows "(\<exists>e. fst (save_to_file ds p True ao cb w) = Inl e)
     \<and> fs (snd (save_to_file ds p True ao cb w)) p = None
     \<and> (fst (prepare ds p False (signal_signal Ignore_keyboard_interrupt w)) = Inr t
          \<and> load_workbook r w = Inr sh \<and> column_details sh = Inr d
          \<and> r \<notin> below (temp_file_dir p)
        \<longrightarrow> fst (save_to_file ds p True ao cb w) = Inl InvalidFileException
          \<and> fs (snd (save_to_file ds p True ao cb w)) t
              = Some (File (Workbook (new_sheet (title sh) (data ds)))))"
proof -
  let ?w0 = "signal_signal Ignore_keyboard_interrupt w"
  have v: "suffix p \<in> set valid_extensions" using c by (simp add: valid_extensions_def)
  have ref: "reference_file ds p ?w0 = Some r"
    using x src by (simp add: reference_file_def)
  note pt = prepare_with_reference [OF v ref sx]
  obtain r1 w1 where p1: "prepare ds p True ?w0 = (r1, w1)" by (cases "prepare ds p True ?w0")
  obtain r0 w3 where p0: "prepare ds p False ?w0 = (r0, w3)" by (cases "prepare ds p False ?w0")
  have fp: "fs w1 p = None"
    using touches_only_fs [OF prepare_frame [OF p1] dest_not_in_tempdir [OF v]] x
    by (simp add: exists_path_def Option.is_none_def)
  have "\<exists>e. r1 = Inl e"
  proof (cases r0)
    case (Inl e)
    with pt p0 p1 show ?thesis by simp
  next
    case (Inr t')
    from prepare_tmp_name [OF p0 [unfolded Inr]] c
    obtain y where t': "t' = joinpath (temp_file_dir p) (''tmp'' @ y @ ''.csv'')" by auto
    from transfer_to_csv_tmp [OF t', of r ds w3] pt p0 p1 Inr show ?thesis
      by (auto split: prod.splits sum.splits)
  qed
  then obtain e where e: "r1 = Inl e" by blast
  have sv: "save_to_file ds p True ao cb w = (Inl e, signal_signal Default_int_handler w1)"
    using v p1 e by (simp add: save_to_file_def Let_def)
  have detail: "fst (save_to_file ds p True ao cb w) = Inl InvalidFileException
          \<and> fs (snd (save_to_file ds p True ao cb w)) t
              = Some (File (Workbook (new_sheet (title sh) (data ds))))"
    if t: "fst (prepare ds p False ?w0) = Inr t" and lw: "load_workbook r w = Inr sh"
      and cd: "column_details sh = Inr d" and nb: "r \<notin> below (temp_file_dir p)"
  proof -
    have p0': "prepare ds p False ?w0 = (Inr t, w3)" using t p0 by simp
    from prepare_tmp_name [OF p0'] c
    obtain y where t': "t = joinpath (temp_file_dir p) (''tmp'' @ y @ ''.csv'')" by auto
    have "fs w3 r = fs ?w0 r" using touches_only_fs [OF prepare_frame [OF p0'] nb] .
    then have "load_workbook r w3 = load_workbook r w"
      by (intro load_workbook_frame) simp
    with lw have lw3: "load_workbook r w3 = Inr sh" by simp
    note tr = transfer_to_csv_tmp_loaded [OF t' lw3 cd, of ds]
    from pt p0' tr p1 have "r1 = Inl InvalidFileException" "w1 = to_excel ds t (title sh) w3"
      by simp_all
    with sv e show ?thesis by (simp add: to_excel_def)
  qed
  from sv fp detail show ?thesis by simp
qed

theorem csv_target_witness:
  "suffix [''out.csv''] = ''.csv''
   \<and> \<not> exists_path with_workbook [''out.csv'']
   \<and> source_file from_workbook = Some [''source.xlsx'']
   \<and> suffix [''source.xlsx''] \<in> set [''.xlsx'', ''.xls'']
   \<and> fst (prepare from_workbook [''out.csv''] False
             (signal_signal Ignore_keyboard_interrupt with_workbook))
       = Inr [''TemporaryFiles'', ''tmpabc.csv'']
   \<and> load_workbook [''source.xlsx''] with_workbook = Inr formatted_sheet
   \<and> (\<exists>d. column_details formatted_sheet = Inr d)
   \<and> [''source.xlsx''] \<notin> below (temp_file_dir [''out.csv''])
   \<and> fst (save_to_file from_workbook [''out.csv''] True False False with_workbook)
       = Inl InvalidFileException
   \<and> fs (snd (save_to_file from_workbook [''out.csv''] True False False with_workbook))
        [''out.csv''] = None
   \<and> fs (snd (save_to_file from_workbook [''out.csv''] True False False with_workbook))
        [''TemporaryFiles'', ''tmpabc.csv'']
       = Some (File (Workbook (new_sheet ''Data'' new_frame)))"
proof -
  have c: "suffix [''out.csv''] = ''.csv''"
    and sx: "suffix [''source.xlsx''] \<in> set [''.xlsx'', ''.xls'']"
    and nb: "[''source.xlsx''] \<notin> below (temp_file_dir [''out.csv''])"
    by (simp_all add: path_defs below_def temp_file_dir_def)
  have x: "\<not> exists_path with_workbook [''out.csv'']"
    and src: "source_file from_workbook = Some [''source.xlsx'']"
    and dt: "data from_workbook = new_frame"
    by (simp_all add: exists_path_def with_workbook_def windows_def from_workbook_def
        AdvancePandas_def)
  have t: "fst (prepare from_workbook [''out.csv''] False
                 (signal_signal Ignore_keyboard_interrupt with_workbook))
             = Inr [''TemporaryFiles'', ''tmpabc.csv'']"
    by (simp add: run_defs path_defs example_defs)
  have lw: "load_workbook [''source.xlsx''] with_workbook = Inr formatted_sheet"
    by (simp add: load_workbook_def splitext_lower_def name_of_def lower_char_def
        SUPPORTED_FORMATS_def with_workbook_def windows_def)
  have "\<exists>d. column_details formatted_sheet = Inr d"
    by (simp add: transplant_defs formatted_sheet_def)
  then obtain d where cd: "column_details formatted_sheet = Inr d" by blast
  have ti: "title formatted_sheet = ''Data''" by (simp add: formatted_sheet_def)
  from csv_target_with_workbook_source_fails [OF c x src sx, of False False
      "[''TemporaryFiles'', ''tmpabc.csv'']" formatted_sheet d] t lw cd nb
  have "fst (save_to_file from_workbook [''out.csv''] True False False with_workbook)
       = Inl InvalidFileException"
    "fs (snd (save_to_file from_workbook [''out.csv''] True False False with_workbook))
        [''out.csv''] = None"
    "fs (snd (save_to_file from_workbook [''out.csv''] True False False with_workbook))
        [''TemporaryFiles'', ''tmpabc.csv'']
       = Some (File (Workbook (new_sheet ''Data'' new_frame)))"
    unfolding dt ti by blast+
  with c x src sx t lw cd nb show ?thesis by blast
qed

text \<open>
  The claim as stated fails: nothing is moved onto the \<open>.csv\<close> path. The same save without
  format retention succeeds and leaves delimited text there.
\<close>

theorem workbook_at_csv_path_counterexample:
  "suffix [''out.csv''] = ''.csv''
   \<and> \<not> exists_path with_workbook [''out.csv'']
   \<and> source_file from_workbook = Some [''source.xlsx'']
   \<and> fs with_workbook [''source.xlsx''] = Some (File (Workbook formatted_sheet))
   \<and> fst (save_to_file from_workbook [''out.csv''] True False False with_workbook)
       = Inl InvalidFileException
   \<and> fs (snd (save_to_file from_workbook [''out.csv''] True False False with_workbook))
        [''out.csv''] = None
   \<and> fst (save_to_file from_workbook [''out.csv''] False False False with_workbook) = Inr ()
   \<and> fs (snd (save_to_file from_workbook [''out.csv''] False False False with_workbook))
        [''out.csv''] = Some (File (Csv new_frame))"
  by (simp add: run_defs path_defs example_defs transplant_defs new_sheet_def)


section \<open>Extension validation\<close>

text \<open>
  C4. A path whose extension is neither \<open>.csv\<close> nor \<open>.xlsx\<close> makes \<open>_save_to_file\<close> fail
  with the unsupported-extension error before anything is written: the file system is
  the one before the call (so the \<open>TemporaryFiles\<close> directory is neither created nor
  given an entry), no intermediate file-system state was produced, no temporary name was
  drawn and nothing was opened or started.
\<close>

theorem unsupported_extension_fails_before_any_write:
  assumes "suffix file_path \<notin> set valid_extensions"
  shows "fst (save_to_file ds file_path retain_format auto_open create_backup w)
           = Inl UnsupportedExtension
       \<and> fs (snd (save_to_file ds file_path retain_format auto_open create_backup w)) = fs w
       \<and> history (snd (save_to_file ds file_path retain_format auto_open create_backup w))
           = history w
       \<and> tmp_names (snd (save_to_file ds file_path retain_format auto_open create_backup w))
           = tmp_names w
       \<and> opened (snd (save_to_file ds file_path retain_format auto_open create_backup w))
           = opened w
       \<and> spawned (snd (save_to_file ds file_path retain_format auto_open create_backup w))
           = spawned w"
  using assms by (simp add: save_to_file_def signal_signal_def)

theorem unsupported_extension_witness:
  "suffix [''data.txt''] \<notin> set valid_extensions
   \<and> fst (save_to_file loaded [''data.txt''] True True True windows) = Inl UnsupportedExtension
   \<and> fs (snd (save_to_file loaded [''data.txt''] True True True windows)) = fs windows
   \<and> history (snd (save_to_file loaded [''data.txt''] True True True windows)) = history windows
   \<and> tmp_names (snd (save_to_file loaded [''data.txt''] True True True windows))
       = tmp_names windows
   \<and> opened (snd (save_to_file loaded [''data.txt''] True True True windows)) = opened windows
   \<and> spawned (snd (save_to_file loaded [''data.txt''] True True True windows))
       = spawned windows"
proof -
  have h: "suffix [''data.txt''] \<notin> set valid_extensions"
    by (simp add: path_defs)
  show ?thesis
    using h unsupported_extension_fails_before_any_write [OF h, of loaded True True True windows]
    by simp
qed

section \<open>The Destination Resolver: precedence\<close>

text \<open>
  C7. \<open>save\<close> resolves its destination in this order. An explicit path is used as it is:
  the synchronous call is \<open>_save_to_file\<close> on that path, the asynchronous one starts a
  worker for that path. Without an explicit path the call behaves as if it had been given
  the stored destination; without that, and with a stored source, as if it had been
  given the source when the user answers yes and the path of the save-as dialog when the
  user answers no. When none of these gives a path the call fails with the no-path
  error and the world is the one before the call: nothing is written.
\<close>

theorem save_resolves_destination_by_precedence:
  "save ds (Some p) False rf ao cb w = save_to_file ds p rf ao cb w
   \<and> save ds (Some p) True rf ao cb w
       = (Inr (), w\<lparr>spawned := spawned w @
                      [\<lparr>job_dataset = ds, job_path = p, job_retain_format = rf,
                        job_auto_open = ao, job_create_backup = cb\<rparr>]\<rparr>)
   \<and> (destination_file ds = Some d \<longrightarrow>
        save ds None am rf ao cb w = save ds (Some d) am rf ao cb w)
   \<and> (destination_file ds = None \<and> source_file ds = Some s \<and> askyesno w \<longrightarrow>
        save ds None am rf ao cb w = save ds (Some s) am rf ao cb w)
   \<and> (destination_file ds = None \<and> source_file ds = Some s \<and> \<not> askyesno w
        \<and> asksaveasfilename w = Some q \<longrightarrow>
        save ds None am rf ao cb w = save ds (Some q) am rf ao cb w)
   \<and> (destination_file ds = None
        \<and> (source_file ds = None \<or> (\<not> askyesno w \<and> asksaveasfilename w = None)) \<longrightarrow>
        save ds None am rf ao cb w = (Inl NoSavePath, w))"
  by (auto simp add: save_def split: option.splits)

theorem save_resolves_destination_witness:
  "destination_file (AdvancePandas new_frame (Some data_csv) (Some [''out.xlsx'']))
     = Some [''out.xlsx'']
   \<and> save (AdvancePandas new_frame (Some data_csv) (Some [''out.xlsx''])) None False False False
        False windows
       = save (AdvancePandas new_frame (Some data_csv) (Some [''out.xlsx''])) (Some [''out.xlsx''])
           False False False False windows
   \<and> destination_file loaded = None \<and> source_file loaded = Some data_csv \<and> askyesno windows
   \<and> save loaded None False False False False windows
       = save loaded (Some data_csv) False False False False windows
   \<and> \<not> askyesno (windows\<lparr>askyesno := False, asksaveasfilename := Some [''copy.csv'']\<rparr>)
   \<and> asksaveasfilename (windows\<lparr>askyesno := False, asksaveasfilename := Some [''copy.csv'']\<rparr>)
       = Some [''copy.csv'']
   \<and> save loaded None False False False False
        (windows\<lparr>askyesno := False, asksaveasfilename := Some [''copy.csv'']\<rparr>)
       = save loaded (Some [''copy.csv'']) False False False False
           (windows\<lparr>askyesno := False, asksaveasfilename := Some [''copy.csv'']\<rparr>)
   \<and> destination_file (AdvancePandas new_frame None None) = None
   \<and> source_file (AdvancePandas new_frame None None) = None
   \<and> save (AdvancePandas new_frame None None) None False False False False windows
       = (Inl NoSavePath, windows)"
proof -
  let ?d = "AdvancePandas new_frame (Some data_csv) (Some [''out.xlsx''])"
  let ?n = "AdvancePandas new_frame None None"
  let ?w = "windows\<lparr>askyesno := False, asksaveasfilename := Some [''copy.csv'']\<rparr>"
  have a: "destination_file ?d = Some [''out.xlsx'']"
    and b: "destination_file loaded = None" "source_file loaded = Some data_csv"
    and c: "destination_file ?n = None" "source_file ?n = None"
    by (simp_all add: AdvancePandas_def loaded_def)
  have y: "askyesno windows" and n: "\<not> askyesno ?w" "asksaveasfilename ?w = Some [''copy.csv'']"
    by (simp_all add: windows_def)
  show ?thesis
    using a b c y n
      save_resolves_destination_by_precedence
        [of ?d data_csv False False False windows "[''out.xlsx'']" False data_csv data_csv]
      save_resolves_destination_by_precedence
        [of loaded data_csv False False False windows data_csv False data_csv data_csv]
      save_resolves_destination_by_precedence
        [of loaded data_csv False False False ?w data_csv False data_csv "[''copy.csv'']"]
      save_resolves_destination_by_precedence
        [of ?n data_csv False False False windows data_csv False data_csv data_csv]
    by simp
qed

section \<open>Metadata of derived datasets\<close>

text \<open>
  C9, as the code has it. A dataset derived from one dataset by an operation that pandas
  finalises against that dataset (copy, row filter, column assignment and the like: any
  function of the frame) has the original's \<open>source_file\<close> and \<open>destination_file\<close>. The
  result of a merge is finalised against the merge operation, which is not a dataset:
  nothing is copied and both attributes are the constructor's defaults, \<open>None\<close>.
\<close>

theorem metadata_of_derived_datasets:
  "source_file (derived f ds) = source_file ds
   \<and> destination_file (derived f ds) = destination_file ds
   \<and> source_file (merge m left right) = None
   \<and> destination_file (merge m left right) = None"
  by (simp add: derived_def merge_def finalize_def metadata_names_def copy_attr_def
      constructor_def AdvancePandas_def)

text \<open>
  The claim as the spec states it fails for a merge: merging the loaded dataset with
  itself gives a dataset that has forgotten where it was loaded from.
\<close>

theorem merge_loses_metadata_counterexample:
  "source_file loaded = Some [''data.csv'']
   \<and> source_file (merge (\<lambda>l r. l) loaded loaded) \<noteq> source_file loaded"
  by (simp add: merge_def finalize_def constructor_def AdvancePandas_def loaded_def data_csv_def)

end
